theory Spec2Isabelle
  imports Main "HOL-Library.AList"
begin

section \<open>Data model of \<^verbatim>\<open>packages/ai/src/ai.ts\<close>\<close>

text \<open>
  A backend or a tool may raise any value (\<^verbatim>\<open>catch (error: any)\<close>): an \<^verbatim>\<open>Error\<close>
  object with its message, \<^verbatim>\<open>null\<close>, \<^verbatim>\<open>undefined\<close>, or some other value, given by
  what \<^verbatim>\<open>String\<close> makes of it and read as having no \<^verbatim>\<open>message\<close> property. A fallback
  entry \<^verbatim>\<open>{adapter, model}\<close> is a pair of strings. The declarations of \<^verbatim>\<open>./types\<close>
  are not part of the sources at hand; the chunk, tool-call and message shapes below carry
  exactly the fields that \<^verbatim>\<open>ai.ts\<close> reads or writes.
\<close>

datatype thrown = JsError (message: string) | JsValue string | JsNull | JsUndefined

text \<open>\<^verbatim>\<open>error instanceof Error ? error : new Error(String(error))\<close>\<close>

definition asError :: "thrown \<Rightarrow> thrown" where
  "asError error =
     (case error of
        JsError m \<Rightarrow> JsError m
      | JsValue text \<Rightarrow> JsError text
      | JsNull \<Rightarrow> JsError ''null''
      | JsUndefined \<Rightarrow> JsError ''undefined'')"

text \<open>
  The \<^verbatim>\<open>TypeError\<close> of the runtime for a property read off \<^verbatim>\<open>null\<close> or
  \<^verbatim>\<open>undefined\<close>; the wording of its message is the engine's (here V8's).
\<close>

definition typeErrorOn :: "string \<Rightarrow> thrown" where
  "typeErrorOn nullish =
     JsError (''Cannot read properties of '' @ nullish @ '' (reading '' @ [CHR 0x27]
              @ ''message'' @ [CHR 0x27] @ '')'')"

text \<open>
  The expression \<^verbatim>\<open>error.message\<close> on a caught value: the message of an \<^verbatim>\<open>Error\<close>,
  \<^verbatim>\<open>undefined\<close> (\<open>None\<close>) for another value, and a \<^verbatim>\<open>TypeError\<close> raised in its
  place for \<^verbatim>\<open>null\<close> and \<^verbatim>\<open>undefined\<close>.
\<close>

definition readMessage :: "thrown \<Rightarrow> thrown + string option" where
  "readMessage error =
     (case error of
        JsError m \<Rightarrow> Inr (Some m)
      | JsValue text \<Rightarrow> Inr None
      | JsNull \<Rightarrow> Inl (typeErrorOn ''null'')
      | JsUndefined \<Rightarrow> Inl (typeErrorOn ''undefined''))"

type_synonym fallback = "string \<times> string"

datatype chunk =
    ContentChunk string string
  | ToolCallChunk nat string string string
  | DoneChunk string
  | ErrorChunk string

datatype ToolCall = ToolCall (tc_id: string) (tc_name: string) (tc_arguments: string)

datatype message =
  Message (msg_role: string) (msg_content: "string option")
    (msg_toolCalls: "ToolCall list option") (msg_toolCallId: "string option")
    (msg_name: "string option")

text \<open>
  The backends and the tool functions are effectful. Their effects are threaded as a world
  \<open>'w\<close>; next to it the run keeps two observations of the orchestrator itself: the backend
  operations it has invoked, as (adapter, model) in call order, and the chunks (of type
  \<open>'c\<close>: stream chunks for chat, strings for text generation) it has yielded to its consumer.
\<close>

record ('w, 'c) exec =
  world :: 'w
  calls :: "fallback list"
  yielded :: "'c list"

record ('j, 'w) Tool =
  tool_name :: string
  tool_execute :: "('j \<Rightarrow> 'w \<Rightarrow> (thrown + string) \<times> 'w) option"

record ('o, 'j, 'w) ChatCompletionOptions =
  opt_rest :: 'o
  opt_messages :: "message list"
  opt_maxIterations :: "int option"
  opt_model :: string
  opt_tools :: "('j, 'w) Tool list option"
  opt_stream :: bool

text \<open>
  A streaming backend call is an async iterable: the chunks it produces and, possibly, the
  error it raises after them.
\<close>

type_synonym 'c iterable = "'c list \<times> thrown option"

record ('o, 'r, 'j, 'w) AIAdapter =
  ad_chatCompletion :: "('o, 'j, 'w) ChatCompletionOptions \<Rightarrow> 'w \<Rightarrow> (thrown + 'r) \<times> 'w"
  ad_chatStream :: "('o, 'j, 'w) ChatCompletionOptions \<Rightarrow> 'w \<Rightarrow> chunk iterable \<times> 'w"
  ad_generateText :: "string \<Rightarrow> 'o \<Rightarrow> 'w \<Rightarrow> (thrown + 'r) \<times> 'w"
  ad_generateTextStream :: "string \<Rightarrow> 'o \<Rightarrow> 'w \<Rightarrow> string iterable \<times> 'w"
  ad_summarize :: "string \<Rightarrow> 'o \<Rightarrow> 'w \<Rightarrow> (thrown + 'r) \<times> 'w"
  ad_createEmbeddings :: "string \<Rightarrow> 'o \<Rightarrow> 'w \<Rightarrow> (thrown + 'r) \<times> 'w"

text \<open>
  The fields of the class \<^verbatim>\<open>AI\<close>. The two registries are objects; an object's keys
  are listed in a fixed order (see \<open>objectSet\<close> below), so they are association lists.
\<close>

record ('o, 'r, 'j, 'w) AI =
  this_adapters :: "(string \<times> ('o, 'r, 'j, 'w) AIAdapter) list"
  this_fallbacks :: "fallback list option"
  this_tools :: "(string \<times> ('j, 'w) Tool) list"

record ('o, 'r, 'j, 'w) AIConfig =
  cfg_adapters :: "(string \<times> ('o, 'r, 'j, 'w) AIAdapter) list"
  cfg_fallbacks :: "fallback list option"
  cfg_tools :: "(string \<times> ('j, 'w) Tool) list option"

text \<open>
  The options of a call are either \<^verbatim>\<open>ChatOptionsWithAdapter\<close> (a primary adapter and
  model, fallbacks optional) or \<^verbatim>\<open>ChatOptionsWithFallback\<close> (no \<^verbatim>\<open>adapter\<close> key,
  fallbacks required); the other three operations have the same two shapes.
\<close>

datatype target =
    WithAdapter string string "fallback list option"
  | FallbackOnly "fallback list"

record 'o ChatRest =
  rest_other :: 'o
  rest_messages :: "message list"
  rest_maxIterations :: "int option"

section \<open>Registries\<close>

fun join :: "string list \<Rightarrow> string \<Rightarrow> string" where
  "join [] sep = []"
| "join [x] sep = x"
| "join (x # y # ys) sep = x @ sep @ join (y # ys) sep"

definition AI_new :: "('o, 'r, 'j, 'w) AIConfig \<Rightarrow> ('o, 'r, 'j, 'w) AI" where
  "AI_new config =
     \<lparr> this_adapters = cfg_adapters config,
       this_fallbacks = cfg_fallbacks config,
       this_tools = (case cfg_tools config of None \<Rightarrow> [] | Some t \<Rightarrow> t) \<rparr>"

definition getAdapter ::
  "('o, 'r, 'j, 'w) AI \<Rightarrow> string \<Rightarrow> thrown + ('o, 'r, 'j, 'w) AIAdapter" where
  \<open>getAdapter self name =
     (case map_of (this_adapters self) name of
        None \<Rightarrow> Inl (JsError (''Adapter "'' @ name @ ''" not found. Available adapters: ''
                       @ join (map fst (this_adapters self)) '', ''))
      | Some adapter \<Rightarrow> Inr adapter)\<close>

definition getTool :: "('o, 'r, 'j, 'w) AI \<Rightarrow> string \<Rightarrow> thrown + ('j, 'w) Tool" where
  \<open>getTool self name =
     (case map_of (this_tools self) name of
        None \<Rightarrow> Inl (JsError (''Tool "'' @ name @ ''" not found. Available tools: ''
                       @ join (map fst (this_tools self)) '', ''))
      | Some tool \<Rightarrow> Inr tool)\<close>

fun getToolsByNames ::
  "('o, 'r, 'j, 'w) AI \<Rightarrow> string list \<Rightarrow> thrown + ('j, 'w) Tool list" where
  "getToolsByNames self [] = Inr []"
| "getToolsByNames self (name # names) =
     (case getTool self name of
        Inl e \<Rightarrow> Inl e
      | Inr tool \<Rightarrow>
          (case getToolsByNames self names of
             Inl e \<Rightarrow> Inl e
           | Inr rest \<Rightarrow> Inr (tool # rest)))"

text \<open>\<^verbatim>\<open>tools ? this.getToolsByNames(tools) : undefined\<close>\<close>

definition toolObjectsOf ::
  "('o, 'r, 'j, 'w) AI \<Rightarrow> string list option \<Rightarrow> thrown + ('j, 'w) Tool list option" where
  "toolObjectsOf self tools =
     (case tools of
        None \<Rightarrow> Inr None
      | Some names \<Rightarrow>
          (case getToolsByNames self names of Inl e \<Rightarrow> Inl e | Inr ts \<Rightarrow> Inr (Some ts)))"

section \<open>Fallback resolution and the promise-mode walker\<close>

text \<open>\<^verbatim>\<open>fallbacks && fallbacks.length > 0 ? fallbacks : this.fallbacks\<close>\<close>

definition fallbackListOf ::
  "fallback list option \<Rightarrow> fallback list option \<Rightarrow> fallback list option" where
  "fallbackListOf fallbacks this_fb =
     (case fallbacks of
        None \<Rightarrow> this_fb
      | Some f \<Rightarrow> if length f > 0 then Some f else this_fb)"

text \<open>\<^verbatim>\<open>!fallbackList || fallbackList.length === 0\<close>\<close>

definition noFallbacks :: "fallback list option \<Rightarrow> bool" where
  "noFallbacks fallbackList =
     (case fallbackList of None \<Rightarrow> True | Some f \<Rightarrow> length f = 0)"

definition fallbackEntries :: "fallback list option \<Rightarrow> fallback list" where
  "fallbackEntries fallbackList = (case fallbackList of None \<Rightarrow> [] | Some f \<Rightarrow> f)"

definition noFallbacksError :: thrown where
  "noFallbacksError = JsError
     ''No fallbacks specified. Either provide fallbacks in options or configure fallbacks in constructor.''"

definition errorLine :: "string \<times> string \<times> thrown \<Rightarrow> string" where
  "errorLine e =
     (case e of (adapter, model, error) \<Rightarrow>
        ''  - '' @ adapter @ '' ('' @ model @ ''): '' @ message (asError error))"

definition allAdaptersFailed :: "string \<Rightarrow> (string \<times> string \<times> thrown) list \<Rightarrow> thrown" where
  "allAdaptersFailed operationName errors =
     (let errorMessage = join (map errorLine errors) [CHR 0x0A]
      in JsError (''All adapters failed for '' @ operationName @ '':'' @ [CHR 0x0A] @ errorMessage))"

text \<open>
  The \<^verbatim>\<open>for ... of\<close> loop of \<^verbatim>\<open>tryWithFallback\<close>, with the local \<^verbatim>\<open>errors\<close>
  array as an accumulator. The \<^verbatim>\<open>catch\<close> block pushes the failure and then evaluates
  \<^verbatim>\<open>error.message\<close> for \<^verbatim>\<open>console.warn\<close>; a \<^verbatim>\<open>TypeError\<close> raised there leaves
  the loop and the function.
\<close>

fun tryWithFallback_loop ::
  "(string \<times> string \<times> thrown) list \<Rightarrow> fallback list \<Rightarrow>
   (fallback \<Rightarrow> 's \<Rightarrow> (thrown + 'r) \<times> 's) \<Rightarrow> string \<Rightarrow> 's \<Rightarrow> (thrown + 'r) \<times> 's" where
  "tryWithFallback_loop errors [] operation operationName s =
     (Inl (allAdaptersFailed operationName errors), s)"
| "tryWithFallback_loop errors (fallback # fallbacks) operation operationName s =
     (case operation fallback s of
        (Inr result, s') \<Rightarrow> (Inr result, s')
      | (Inl error, s') \<Rightarrow>
          (case readMessage error of
             Inl typeError \<Rightarrow> (Inl typeError, s')
           | Inr text \<Rightarrow>
               tryWithFallback_loop (errors @ [(fst fallback, snd fallback, asError error)])
                 fallbacks operation operationName s'))"

definition tryWithFallback ::
  "fallback list \<Rightarrow> (fallback \<Rightarrow> 's \<Rightarrow> (thrown + 'r) \<times> 's) \<Rightarrow> string \<Rightarrow> 's \<Rightarrow>
   (thrown + 'r) \<times> 's" where
  "tryWithFallback fallbacks operation operationName s =
     tryWithFallback_loop [] fallbacks operation operationName s"

text \<open>
  \<^verbatim>\<open>this.getAdapter(name).method(request)\<close>: the lookup may raise; the backend operation,
  once invoked, is appended to the log of calls.
\<close>

definition invoke ::
  "('o, 'r, 'j, 'w) AI \<Rightarrow> fallback \<Rightarrow> (('o, 'r, 'j, 'w) AIAdapter \<Rightarrow> 'w \<Rightarrow> 'a \<times> 'w) \<Rightarrow>
   ('w, 'c) exec \<Rightarrow> (thrown + 'a) \<times> ('w, 'c) exec" where
  "invoke self fallback method s =
     (case getAdapter self (fst fallback) of
        Inl e \<Rightarrow> (Inl e, s)
      | Inr adapter \<Rightarrow>
          (case method adapter (world s) of
             (res, w') \<Rightarrow> (Inr res, s\<lparr>world := w', calls := calls s @ [fallback]\<rparr>)))"

definition awaited :: "(thrown + (thrown + 'r)) \<times> 's \<Rightarrow> (thrown + 'r) \<times> 's" where
  "awaited x = (case x of (Inl e, s) \<Rightarrow> (Inl e, s) | (Inr res, s) \<Rightarrow> (res, s))"

definition chatRequest ::
  "'o ChatRest \<Rightarrow> string \<Rightarrow> ('j, 'w) Tool list option \<Rightarrow> bool \<Rightarrow>
   ('o, 'j, 'w) ChatCompletionOptions" where
  "chatRequest restOptions model toolObjects stream =
     \<lparr> opt_rest = rest_other restOptions,
       opt_messages = rest_messages restOptions,
       opt_maxIterations = rest_maxIterations restOptions,
       opt_model = model,
       opt_tools = toolObjects,
       opt_stream = stream \<rparr>"

section \<open>Promise-mode operations\<close>

text \<open>
  In the \<^verbatim>\<open>catch\<close> block of the primary attempt, \<^verbatim>\<open>throw primaryError\<close> comes
  first; with fallbacks at hand, \<^verbatim>\<open>primaryError.message\<close> is evaluated for
  \<^verbatim>\<open>console.warn\<close> before \<^verbatim>\<open>tryWithFallback\<close> is called.
\<close>

definition chatPromise ::
  "('o, 'r, 'j, 'w) AI \<Rightarrow> target \<Rightarrow> string list option \<Rightarrow> 'o ChatRest \<Rightarrow> ('w, 'c) exec \<Rightarrow>
   (thrown + 'r) \<times> ('w, 'c) exec" where
  "chatPromise self options tools restOptions s =
     (case options of
        FallbackOnly fallbacks \<Rightarrow>
          (let fallbackList = (if length fallbacks > 0 then Some fallbacks else this_fallbacks self)
           in if noFallbacks fallbackList then (Inl noFallbacksError, s)
              else
                (case toolObjectsOf self tools of
                   Inl e \<Rightarrow> (Inl e, s)
                 | Inr toolObjects \<Rightarrow>
                     tryWithFallback (fallbackEntries fallbackList)
                       (\<lambda>fallback s. awaited (invoke self fallback
                          (\<lambda>a. ad_chatCompletion a
                             (chatRequest restOptions (snd fallback) toolObjects False)) s))
                       ''chat'' s))
      | WithAdapter adapter model fallbacks \<Rightarrow>
          (let fallbackList = fallbackListOf fallbacks (this_fallbacks self)
           in case toolObjectsOf self tools of
                Inl e \<Rightarrow> (Inl e, s)
              | Inr toolObjects \<Rightarrow>
                  (case awaited (invoke self (adapter, model)
                          (\<lambda>a. ad_chatCompletion a
                             (chatRequest restOptions model toolObjects False)) s) of
                     (Inr result, s') \<Rightarrow> (Inr result, s')
                   | (Inl primaryError, s') \<Rightarrow>
                       if noFallbacks fallbackList then (Inl primaryError, s')
                       else
                         (case readMessage primaryError of
                            Inl typeError \<Rightarrow> (Inl typeError, s')
                          | Inr text \<Rightarrow>
                              tryWithFallback (fallbackEntries fallbackList)
                                (\<lambda>fallback s. awaited (invoke self fallback
                                   (\<lambda>a. ad_chatCompletion a
                                      (chatRequest restOptions (snd fallback) toolObjects False))
                                   s))
                                ''chat (after primary failure)'' s'))))"

definition generateText ::
  "('o, 'r, 'j, 'w) AI \<Rightarrow> target \<Rightarrow> 'o \<Rightarrow> ('w, 'c) exec \<Rightarrow> (thrown + 'r) \<times> ('w, 'c) exec" where
  "generateText self options restOptions s =
     (case options of
        FallbackOnly fallbacks \<Rightarrow>
          (let fallbackList = fallbackListOf (Some fallbacks) (this_fallbacks self)
           in if noFallbacks fallbackList then (Inl noFallbacksError, s)
              else
                tryWithFallback (fallbackEntries fallbackList)
                  (\<lambda>fallback s. awaited (invoke self fallback
                     (\<lambda>a. ad_generateText a (snd fallback) restOptions) s))
                  ''generateText'' s)
      | WithAdapter adapter model fallbacks \<Rightarrow>
          (let fallbackList = fallbackListOf fallbacks (this_fallbacks self)
           in case awaited (invoke self (adapter, model)
                     (\<lambda>a. ad_generateText a model restOptions) s) of
                (Inr result, s') \<Rightarrow> (Inr result, s')
              | (Inl primaryError, s') \<Rightarrow>
                  if noFallbacks fallbackList then (Inl primaryError, s')
                  else
                    (case readMessage primaryError of
                       Inl typeError \<Rightarrow> (Inl typeError, s')
                     | Inr text \<Rightarrow>
                         tryWithFallback (fallbackEntries fallbackList)
                           (\<lambda>fallback s. awaited (invoke self fallback
                              (\<lambda>a. ad_generateText a (snd fallback) restOptions) s))
                           ''generateText (after primary failure)'' s')))"

definition summarize ::
  "('o, 'r, 'j, 'w) AI \<Rightarrow> target \<Rightarrow> 'o \<Rightarrow> ('w, 'c) exec \<Rightarrow> (thrown + 'r) \<times> ('w, 'c) exec" where
  "summarize self options restOptions s =
     (case options of
        FallbackOnly fallbacks \<Rightarrow>
          (let fallbackList = fallbackListOf (Some fallbacks) (this_fallbacks self)
           in if noFallbacks fallbackList then (Inl noFallbacksError, s)
              else
                tryWithFallback (fallbackEntries fallbackList)
                  (\<lambda>fallback s. awaited (invoke self fallback
                     (\<lambda>a. ad_summarize a (snd fallback) restOptions) s))
                  ''summarize'' s)
      | WithAdapter adapter model fallbacks \<Rightarrow>
          (let fallbackList = fallbackListOf fallbacks (this_fallbacks self)
           in case awaited (invoke self (adapter, model)
                     (\<lambda>a. ad_summarize a model restOptions) s) of
                (Inr result, s') \<Rightarrow> (Inr result, s')
              | (Inl primaryError, s') \<Rightarrow>
                  if noFallbacks fallbackList then (Inl primaryError, s')
                  else
                    (case readMessage primaryError of
                       Inl typeError \<Rightarrow> (Inl typeError, s')
                     | Inr text \<Rightarrow>
                         tryWithFallback (fallbackEntries fallbackList)
                           (\<lambda>fallback s. awaited (invoke self fallback
                              (\<lambda>a. ad_summarize a (snd fallback) restOptions) s))
                           ''summarize (after primary failure)'' s')))"

definition embed ::
  "('o, 'r, 'j, 'w) AI \<Rightarrow> target \<Rightarrow> 'o \<Rightarrow> ('w, 'c) exec \<Rightarrow> (thrown + 'r) \<times> ('w, 'c) exec" where
  "embed self options restOptions s =
     (case options of
        FallbackOnly fallbacks \<Rightarrow>
          (let fallbackList = fallbackListOf (Some fallbacks) (this_fallbacks self)
           in if noFallbacks fallbackList then (Inl noFallbacksError, s)
              else
                tryWithFallback (fallbackEntries fallbackList)
                  (\<lambda>fallback s. awaited (invoke self fallback
                     (\<lambda>a. ad_createEmbeddings a (snd fallback) restOptions) s))
                  ''embed'' s)
      | WithAdapter adapter model fallbacks \<Rightarrow>
          (let fallbackList = fallbackListOf fallbacks (this_fallbacks self)
           in case awaited (invoke self (adapter, model)
                     (\<lambda>a. ad_createEmbeddings a model restOptions) s) of
                (Inr result, s') \<Rightarrow> (Inr result, s')
              | (Inl primaryError, s') \<Rightarrow>
                  if noFallbacks fallbackList then (Inl primaryError, s')
                  else
                    (case readMessage primaryError of
                       Inl typeError \<Rightarrow> (Inl typeError, s')
                     | Inr text \<Rightarrow>
                         tryWithFallback (fallbackEntries fallbackList)
                           (\<lambda>fallback s. awaited (invoke self fallback
                              (\<lambda>a. ad_createEmbeddings a (snd fallback) restOptions) s))
                           ''embed (after primary failure)'' s')))"

section \<open>Streaming chat without tool execution\<close>

text \<open>
  The \<^verbatim>\<open>for await\<close> loop over one attempt: chunks are yielded until an error chunk
  shows up, which is kept back and ends the loop. The test \<^verbatim>\<open>chunk.type === "error"\<close> reads
  the message of an error-tagged stream chunk (\<open>chunkError\<close>); the text fragments of
  \<^verbatim>\<open>generateTextStream\<close> are strings, which have no \<^verbatim>\<open>type\<close> (\<open>noChunkError\<close>).
\<close>

definition chunkError :: "chunk \<Rightarrow> string option" where
  "chunkError c = (case c of ErrorChunk m \<Rightarrow> Some m | _ \<Rightarrow> None)"

definition noChunkError :: "string \<Rightarrow> string option" where
  "noChunkError c = None"

fun forwardUntilError :: "('c \<Rightarrow> string option) \<Rightarrow> 'c list \<Rightarrow> 'c list \<times> string option" where
  "forwardUntilError errorOf [] = ([], None)"
| "forwardUntilError errorOf (c # cs) =
     (case errorOf c of
        Some m \<Rightarrow> ([], Some m)
      | None \<Rightarrow> (case forwardUntilError errorOf cs of (forwarded, e) \<Rightarrow> (c # forwarded, e)))"

text \<open>
  One attempt: the chunks forwarded and the error it ends with, if any. An error chunk
  becomes \<^verbatim>\<open>new Error(message || "Unknown error")\<close>; an iterator that raises after its
  chunks raises that error.
\<close>

definition consumeAttempt ::
  "('c \<Rightarrow> string option) \<Rightarrow> 'c iterable \<Rightarrow> 'c list \<times> thrown option" where
  "consumeAttempt errorOf iterator =
     (case forwardUntilError errorOf (fst iterator) of
        (forwarded, Some m) \<Rightarrow>
          (forwarded, Some (JsError (if m = [] then ''Unknown error'' else m)))
      | (forwarded, None) \<Rightarrow> (forwarded, snd iterator))"

text \<open>
  The loop of \<^verbatim>\<open>tryStreamWithFallback\<close>, with \<^verbatim>\<open>errors\<close> as an accumulator. The
  loops that \<^verbatim>\<open>chatStream\<close> and \<^verbatim>\<open>generateTextStream\<close> run inline over their
  fallbacks after a failed primary are the same loop started with the primary's failure
  already in \<^verbatim>\<open>errors\<close>. As in \<^verbatim>\<open>tryWithFallback\<close>, each \<^verbatim>\<open>catch\<close> block pushes
  the failure and then evaluates its \<^verbatim>\<open>.message\<close> for \<^verbatim>\<open>console.warn\<close>.
\<close>

fun tryStreamWithFallback_loop ::
  "('c \<Rightarrow> string option) \<Rightarrow> (string \<times> string \<times> thrown) list \<Rightarrow> fallback list \<Rightarrow>
   (fallback \<Rightarrow> ('w, 'c) exec \<Rightarrow> (thrown + 'c iterable) \<times> ('w, 'c) exec) \<Rightarrow> string \<Rightarrow>
   ('w, 'c) exec \<Rightarrow> (thrown + unit) \<times> ('w, 'c) exec" where
  "tryStreamWithFallback_loop errorOf errors [] operation operationName s =
     (Inl (allAdaptersFailed operationName errors), s)"
| "tryStreamWithFallback_loop errorOf errors (fallback # fallbacks) operation operationName s =
     (case operation fallback s of
        (Inl error, s') \<Rightarrow>
          (case readMessage error of
             Inl typeError \<Rightarrow> (Inl typeError, s')
           | Inr text \<Rightarrow>
               tryStreamWithFallback_loop errorOf
                 (errors @ [(fst fallback, snd fallback, asError error)])
                 fallbacks operation operationName s')
      | (Inr iterator, s') \<Rightarrow>
          (case consumeAttempt errorOf iterator of
             (forwarded, None) \<Rightarrow> (Inr (), s'\<lparr>yielded := yielded s' @ forwarded\<rparr>)
           | (forwarded, Some error) \<Rightarrow>
               (case readMessage error of
                  Inl typeError \<Rightarrow> (Inl typeError, s'\<lparr>yielded := yielded s' @ forwarded\<rparr>)
                | Inr text \<Rightarrow>
                    tryStreamWithFallback_loop errorOf
                      (errors @ [(fst fallback, snd fallback, asError error)])
                      fallbacks operation operationName
                      (s'\<lparr>yielded := yielded s' @ forwarded\<rparr>))))"

definition tryStreamWithFallback ::
  "('c \<Rightarrow> string option) \<Rightarrow> fallback list \<Rightarrow>
   (fallback \<Rightarrow> ('w, 'c) exec \<Rightarrow> (thrown + 'c iterable) \<times> ('w, 'c) exec) \<Rightarrow> string \<Rightarrow>
   ('w, 'c) exec \<Rightarrow> (thrown + unit) \<times> ('w, 'c) exec" where
  "tryStreamWithFallback errorOf fallbacks operation operationName s =
     tryStreamWithFallback_loop errorOf [] fallbacks operation operationName s"

text \<open>\<^verbatim>\<open>toolObjects?.some((t) => t.execute)\<close>\<close>

definition hasToolExecutorsOf :: "('j, 'w) Tool list option \<Rightarrow> bool" where
  "hasToolExecutorsOf toolObjects =
     (case toolObjects of
        None \<Rightarrow> False
      | Some ts \<Rightarrow> list_ex (\<lambda>t. tool_execute t \<noteq> None) ts)"

text \<open>The branch \<^verbatim>\<open>if (!hasToolExecutors)\<close> of \<^verbatim>\<open>chatStream\<close>, lines 500 to 597.\<close>

definition chatStream_plain ::
  "('o, 'r, 'j, 'w) AI \<Rightarrow> ('o, 'r, 'j, 'w) AIAdapter \<Rightarrow> string \<Rightarrow> string \<Rightarrow>
   fallback list option \<Rightarrow> ('j, 'w) Tool list option \<Rightarrow> 'o ChatRest \<Rightarrow> ('w, chunk) exec \<Rightarrow>
   (thrown + unit) \<times> ('w, chunk) exec" where
  "chatStream_plain self adapterInstance adapterToUse modelToUse fallbackList toolObjects
       restOptions s =
     (case ad_chatStream adapterInstance
             (chatRequest restOptions modelToUse toolObjects True) (world s) of
        (iterator, w') \<Rightarrow>
          (let s1 = s\<lparr>world := w', calls := calls s @ [(adapterToUse, modelToUse)]\<rparr>
           in case consumeAttempt chunkError iterator of
                (forwarded, None) \<Rightarrow> (Inr (), s1\<lparr>yielded := yielded s1 @ forwarded\<rparr>)
              | (forwarded, Some primaryError) \<Rightarrow>
                  (let s2 = s1\<lparr>yielded := yielded s1 @ forwarded\<rparr>;
                       errors = [(adapterToUse, modelToUse, asError primaryError)]
                   in if \<not> noFallbacks fallbackList then
                        (case readMessage primaryError of
                           Inl typeError \<Rightarrow> (Inl typeError, s2)
                         | Inr text \<Rightarrow>
                             tryStreamWithFallback_loop chunkError errors
                               (fallbackEntries fallbackList)
                               (\<lambda>fallback. invoke self fallback
                                  (\<lambda>a. ad_chatStream a
                                     (chatRequest restOptions (snd fallback) toolObjects True)))
                               ''streamChat'' s2)
                      else (Inl primaryError, s2))))"

section \<open>Streaming text generation\<close>

definition generateTextStream ::
  "('o, 'r, 'j, 'w) AI \<Rightarrow> target \<Rightarrow> 'o \<Rightarrow> ('w, string) exec \<Rightarrow>
   (thrown + unit) \<times> ('w, string) exec" where
  "generateTextStream self options restOptions s =
     (case options of
        FallbackOnly fallbacks \<Rightarrow>
          (let fallbackList = fallbackListOf (Some fallbacks) (this_fallbacks self)
           in if noFallbacks fallbackList then (Inl noFallbacksError, s)
              else
                tryStreamWithFallback noChunkError (fallbackEntries fallbackList)
                  (\<lambda>fallback. invoke self fallback
                     (\<lambda>a. ad_generateTextStream a (snd fallback) restOptions))
                  ''generateTextStream'' s)
      | WithAdapter adapter model fallbacks \<Rightarrow>
          (let fallbackList = fallbackListOf fallbacks (this_fallbacks self);
               afterPrimary = (\<lambda>primaryError s'.
                 if noFallbacks fallbackList then (Inl primaryError, s')
                 else
                   (case readMessage primaryError of
                      Inl typeError \<Rightarrow> (Inl typeError, s')
                    | Inr text \<Rightarrow>
                        tryStreamWithFallback_loop noChunkError
                          [(adapter, model, asError primaryError)]
                          (fallbackEntries fallbackList)
                          (\<lambda>fallback. invoke self fallback
                             (\<lambda>a. ad_generateTextStream a (snd fallback) restOptions))
                          ''generateTextStream'' s'))
           in case invoke self (adapter, model)
                     (\<lambda>a. ad_generateTextStream a model restOptions) s of
                (Inl primaryError, s') \<Rightarrow> afterPrimary primaryError s'
              | (Inr iterator, s') \<Rightarrow>
                  (case snd iterator of
                     None \<Rightarrow> (Inr (), s'\<lparr>yielded := yielded s' @ fst iterator\<rparr>)
                   | Some primaryError \<Rightarrow>
                       afterPrimary primaryError (s'\<lparr>yielded := yielded s' @ fst iterator\<rparr>))))"

section \<open>The tool-execution loop\<close>

text \<open>
  \<^verbatim>\<open>JSON.parse\<close> and \<^verbatim>\<open>JSON.stringify({ error: message })\<close> belong to the runtime and
  are parameters of the model. \<^verbatim>\<open>JSON.parse\<close> returns the value, or the message of the
  \<^verbatim>\<open>SyntaxError\<close> it raises; the message handed to \<^verbatim>\<open>JSON.stringify\<close> is a string or
  \<^verbatim>\<open>undefined\<close>.
\<close>

record 'j JSON =
  JSON_parse :: "string \<Rightarrow> string + 'j"
  JSON_stringify_error :: "string option \<Rightarrow> string"

datatype PendingCall = PendingCall (pc_id: string) (pc_name: string) (pc_args: string)

text \<open>
  \<^verbatim>\<open>toolCallsMap\<close> is a \<^verbatim>\<open>Map\<close>: \<^verbatim>\<open>set\<close> on a present key keeps the key's place,
  on a new key appends it, and \<^verbatim>\<open>forEach\<close> visits the entries in that order.
\<close>

definition accumulate :: "(nat \<times> PendingCall) list \<Rightarrow> chunk \<Rightarrow> (nat \<times> PendingCall) list" where
  "accumulate toolCallsMap chunk =
     (case chunk of
        ToolCallChunk index callId name arguments \<Rightarrow>
          (let existing = (case map_of toolCallsMap index of
                             Some e \<Rightarrow> e
                           | None \<Rightarrow> PendingCall callId [] []);
               named = (if name \<noteq> [] then PendingCall (pc_id existing) name (pc_args existing)
                        else existing)
           in AList.update index
                (PendingCall (pc_id named) (pc_name named) (pc_args named @ arguments))
                toolCallsMap)
      | _ \<Rightarrow> toolCallsMap)"

definition finalize :: "(nat \<times> PendingCall) list \<Rightarrow> ToolCall list" where
  "finalize toolCallsMap =
     map (\<lambda>call. ToolCall (pc_id call) (pc_name call) (pc_args call)) (map snd toolCallsMap)"

text \<open>The body of the \<^verbatim>\<open>for await\<close> loop of one round, after the \<^verbatim>\<open>yield\<close>.\<close>

definition observe ::
  "(nat \<times> PendingCall) list \<times> ToolCall list \<times> bool \<Rightarrow> chunk \<Rightarrow>
   (nat \<times> PendingCall) list \<times> ToolCall list \<times> bool" where
  "observe st chunk =
     (case st of (toolCallsMap, toolCalls, hasToolCalls) \<Rightarrow>
        (let toolCallsMap' = accumulate toolCallsMap chunk
         in case chunk of
              DoneChunk finishReason \<Rightarrow>
                if finishReason = ''tool_calls''
                then (toolCallsMap', toolCalls @ finalize toolCallsMap', True)
                else (toolCallsMap', toolCalls, hasToolCalls)
            | _ \<Rightarrow> (toolCallsMap', toolCalls, hasToolCalls)))"

definition findTool :: "('j, 'w) Tool list option \<Rightarrow> string \<Rightarrow> ('j, 'w) Tool option" where
  "findTool tools name =
     (case tools of None \<Rightarrow> None | Some ts \<Rightarrow> List.find (\<lambda>t. tool_name t = name) ts)"

definition toolMessage :: "string \<Rightarrow> ToolCall \<Rightarrow> message" where
  "toolMessage body toolCall =
     Message ''tool'' (Some body) None (Some (tc_id toolCall)) (Some (tc_name toolCall))"

text \<open>
  The \<^verbatim>\<open>for\<close> loop over the finalized tool calls. The \<^verbatim>\<open>catch\<close> block evaluates
  \<^verbatim>\<open>error.message\<close> outside of any \<^verbatim>\<open>try\<close>: a \<^verbatim>\<open>TypeError\<close> raised there
  leaves the loop and the generator.
\<close>

fun executeTools ::
  "'j JSON \<Rightarrow> ('j, 'w) Tool list option \<Rightarrow> ToolCall list \<Rightarrow> message list \<Rightarrow>
   ('w, chunk) exec \<Rightarrow> (thrown + message list) \<times> ('w, chunk) exec" where
  "executeTools json tools [] messages s = (Inr messages, s)"
| "executeTools json tools (toolCall # toolCalls) messages s =
     (case findTool tools (tc_name toolCall) of
        None \<Rightarrow> executeTools json tools toolCalls messages s
      | Some tool \<Rightarrow>
          (case tool_execute tool of
             None \<Rightarrow> executeTools json tools toolCalls messages s
           | Some execute \<Rightarrow>
               (case JSON_parse json (tc_arguments toolCall) of
                  Inl syntaxError \<Rightarrow>
                    executeTools json tools toolCalls
                      (messages @
                         [toolMessage (JSON_stringify_error json (Some syntaxError)) toolCall])
                      s
                | Inr args \<Rightarrow>
                    (case execute args (world s) of
                       (Inr result, w') \<Rightarrow>
                         executeTools json tools toolCalls
                           (messages @ [toolMessage result toolCall])
                           (s\<lparr>world := w',
                              yielded := yielded s @
                                [ContentChunk [] (''[Tool '' @ tc_name toolCall @ '' executed]'')]\<rparr>)
                     | (Inl error, w') \<Rightarrow>
                         (case readMessage error of
                            Inl typeError \<Rightarrow> (Inl typeError, s\<lparr>world := w'\<rparr>)
                          | Inr text \<Rightarrow>
                              executeTools json tools toolCalls
                                (messages @ [toolMessage (JSON_stringify_error json text) toolCall])
                                (s\<lparr>world := w'\<rparr>))))))"

text \<open>The \<^verbatim>\<open>while (iteration < maxIterations)\<close> loop of \<^verbatim>\<open>chatStream\<close>.\<close>

function toolLoop ::
  "'j JSON \<Rightarrow> ('o, 'r, 'j, 'w) AIAdapter \<Rightarrow> string \<Rightarrow> string \<Rightarrow> 'o ChatRest \<Rightarrow>
   ('j, 'w) Tool list option \<Rightarrow> int \<Rightarrow> int \<Rightarrow> message list \<Rightarrow> ('w, chunk) exec \<Rightarrow>
   (thrown + unit) \<times> ('w, chunk) exec" where
  "toolLoop json adapterInstance adapterToUse modelToUse restOptions toolObjects maxIterations
       iteration messages s =
     (if iteration < maxIterations then
        (case ad_chatStream adapterInstance
                (chatRequest (restOptions\<lparr>rest_messages := messages\<rparr>) modelToUse toolObjects True)
                (world s) of
           (iterator, w') \<Rightarrow>
             (let s1 = s\<lparr>world := w',
                         calls := calls s @ [(adapterToUse, modelToUse)],
                         yielded := yielded s @ fst iterator\<rparr>
              in case snd iterator of
                   Some error \<Rightarrow> (Inl error, s1)
                 | None \<Rightarrow>
                     (case foldl observe ([], [], False) (fst iterator) of
                        (toolCallsMap, toolCalls, hasToolCalls) \<Rightarrow>
                          if \<not> hasToolCalls \<or> length toolCalls = 0 then (Inr (), s1)
                          else
                            (case executeTools json toolObjects toolCalls
                                    (messages @
                                       [Message ''assistant'' None (Some toolCalls) None None])
                                    s1 of
                               (Inl typeError, s2) \<Rightarrow> (Inl typeError, s2)
                             | (Inr messages', s2) \<Rightarrow>
                                 toolLoop json adapterInstance adapterToUse modelToUse restOptions
                                   toolObjects maxIterations (iteration + 1) messages' s2))))
      else (Inr (), s))"
  by pat_completeness auto
termination
  by (relation "measure (\<lambda>(json, adapterInstance, adapterToUse, modelToUse, restOptions,
        toolObjects, maxIterations, iteration, messages, s). nat (maxIterations - iteration))") auto

declare toolLoop.simps [simp del]

section \<open>\<^verbatim>\<open>chatStream\<close>\<close>

text \<open>\<^verbatim>\<open>chatStream\<close> from the resolution of the tool names on, lines 475 to 707.\<close>

definition chatStream_body ::
  "'j JSON \<Rightarrow> ('o, 'r, 'j, 'w) AI \<Rightarrow> bool \<Rightarrow> string \<Rightarrow> string \<Rightarrow> fallback list option \<Rightarrow>
   string list option \<Rightarrow> 'o ChatRest \<Rightarrow> ('w, chunk) exec \<Rightarrow> (thrown + unit) \<times> ('w, chunk) exec" where
  "chatStream_body json self isFallbackOnlyMode adapterToUse modelToUse fallbackList toolNames
       restOptions s =
     (case toolObjectsOf self toolNames of
        Inl e \<Rightarrow> (Inl e, s)
      | Inr toolObjects \<Rightarrow>
          (let hasToolExecutors = hasToolExecutorsOf toolObjects
           in if isFallbackOnlyMode \<and> \<not> hasToolExecutors then
                tryStreamWithFallback chunkError (fallbackEntries fallbackList)
                  (\<lambda>fallback. invoke self fallback
                     (\<lambda>a. ad_chatStream a
                        (chatRequest restOptions (snd fallback) toolObjects True)))
                  ''streamChat'' s
              else
                (case getAdapter self adapterToUse of
                   Inl e \<Rightarrow> (Inl e, s)
                 | Inr adapterInstance \<Rightarrow>
                     if \<not> hasToolExecutors then
                       chatStream_plain self adapterInstance adapterToUse modelToUse fallbackList
                         toolObjects restOptions s
                     else
                       (let maxIterations =
                              (case rest_maxIterations restOptions of None \<Rightarrow> 5 | Some n \<Rightarrow> n)
                        in toolLoop json adapterInstance adapterToUse modelToUse restOptions
                             toolObjects maxIterations 0 (rest_messages restOptions) s))))"

definition chatStream ::
  "'j JSON \<Rightarrow> ('o, 'r, 'j, 'w) AI \<Rightarrow> target \<Rightarrow> string list option \<Rightarrow> 'o ChatRest \<Rightarrow> ('w, chunk) exec \<Rightarrow>
   (thrown + unit) \<times> ('w, chunk) exec" where
  "chatStream json self options tools restOptions s =
     (case options of
        FallbackOnly fallbacks \<Rightarrow>
          (let fallbackList = fallbackListOf (Some fallbacks) (this_fallbacks self)
           in if noFallbacks fallbackList then (Inl noFallbacksError, s)
              else
                chatStream_body json self True
                  (fst (hd (fallbackEntries fallbackList)))
                  (snd (hd (fallbackEntries fallbackList)))
                  fallbackList tools restOptions s)
      | WithAdapter adapter model fallbacks \<Rightarrow>
          chatStream_body json self False adapter model
            (fallbackListOf fallbacks (this_fallbacks self)) tools restOptions s)"

section \<open>\<^verbatim>\<open>addAdapter\<close>\<close>

text \<open>
  The own keys of a JavaScript object are listed with the array indices first, in ascending
  numeric order, and the other strings after them in the order they were added. An array
  index is a canonical numeral below \<open>2^32 - 1\<close>.
\<close>

definition isDigit :: "char \<Rightarrow> bool" where
  "isDigit c = (48 \<le> (of_char c :: nat) \<and> (of_char c :: nat) \<le> 57)"

definition digitsValue :: "string \<Rightarrow> nat" where
  "digitsValue name = foldl (\<lambda>n c. 10 * n + (of_char c - 48)) 0 name"

definition arrayIndex :: "string \<Rightarrow> nat option" where
  "arrayIndex name =
     (if name \<noteq> [] \<and> list_all isDigit name \<and> (name = ''0'' \<or> hd name \<noteq> CHR ''0'')
         \<and> digitsValue name < 2 ^ 32 - 1
      then Some (digitsValue name) else None)"

fun insertIndexed :: "nat \<Rightarrow> string \<Rightarrow> 'a \<Rightarrow> (string \<times> 'a) list \<Rightarrow> (string \<times> 'a) list" where
  "insertIndexed n name v [] = [(name, v)]"
| "insertIndexed n name v (p # properties) =
     (case arrayIndex (fst p) of
        Some j \<Rightarrow>
          if j < n then p # insertIndexed n name v properties
          else (name, v) # p # properties
      | None \<Rightarrow> (name, v) # p # properties)"

text \<open>
  Setting a property: a present key keeps its place; a new array index goes among the
  indices; any other new key goes last.
\<close>

definition objectSet :: "string \<Rightarrow> 'a \<Rightarrow> (string \<times> 'a) list \<Rightarrow> (string \<times> 'a) list" where
  "objectSet name v properties =
     (if name \<in> set (map fst properties) then AList.update name v properties
      else case arrayIndex name of
             None \<Rightarrow> properties @ [(name, v)]
           | Some n \<Rightarrow> insertIndexed n name v properties)"

text \<open>
  \<^verbatim>\<open>addAdapter\<close> is a method of an object that lives on: instances are kept in a store,
  and \<^verbatim>\<open>new AI\<close> allocates the next free reference. The spread
  \<^verbatim>\<open>{ ...this.adapters, [name]: adapter }\<close> copies the receiver's entries in their order
  and then sets the new one.
\<close>

record ('o, 'r, 'j, 'w) store =
  objects :: "nat \<Rightarrow> ('o, 'r, 'j, 'w) AI option"
  nextRef :: nat

definition wf_store :: "('o, 'r, 'j, 'w) store \<Rightarrow> bool" where
  "wf_store h = (\<forall>r. objects h r \<noteq> None \<longrightarrow> r < nextRef h)"

definition addAdapter ::
  "('o, 'r, 'j, 'w) store \<Rightarrow> nat \<Rightarrow> string \<Rightarrow> ('o, 'r, 'j, 'w) AIAdapter \<Rightarrow>
   (nat \<times> ('o, 'r, 'j, 'w) store) option" where
  "addAdapter h this name adapter =
     (case objects h this of
        None \<Rightarrow> None
      | Some self \<Rightarrow>
          (let newAdapters = objectSet name adapter (this_adapters self);
               created = AI_new \<lparr> cfg_adapters = newAdapters, cfg_fallbacks = None,
                                  cfg_tools = None \<rparr>
           in Some (nextRef h,
                    h\<lparr>objects := (objects h)(nextRef h \<mapsto> created),
                      nextRef := nextRef h + 1\<rparr>)))"

section \<open>The four promise-mode operations, side by side\<close>

text \<open>
  \<^verbatim>\<open>chat\<close> (as a promise), \<^verbatim>\<open>generateText\<close>, \<^verbatim>\<open>summarize\<close> and \<^verbatim>\<open>embed\<close>, each with
  the backend method it invokes for a fallback entry. For \<^verbatim>\<open>chat\<close> the tool names have
  been resolved.
\<close>

inductive promiseOperation ::
  "('o, 'r, 'j, 'w) AI \<Rightarrow> target \<Rightarrow>
   (('w, 'c) exec \<Rightarrow> (thrown + 'r) \<times> ('w, 'c) exec) \<Rightarrow>
   (fallback \<Rightarrow> ('o, 'r, 'j, 'w) AIAdapter \<Rightarrow> 'w \<Rightarrow> (thrown + 'r) \<times> 'w) \<Rightarrow> bool"
  for self :: "('o, 'r, 'j, 'w) AI" and options :: target where
  chat:
    "toolObjectsOf self tools = Inr toolObjects \<Longrightarrow>
     promiseOperation self options (chatPromise self options tools restOptions)
       (\<lambda>fallback a. ad_chatCompletion a
          (chatRequest restOptions (snd fallback) toolObjects False))"
| generateText:
    "promiseOperation self options (generateText self options textOptions)
       (\<lambda>fallback a. ad_generateText a (snd fallback) textOptions)"
| summarize:
    "promiseOperation self options (summarize self options textOptions)
       (\<lambda>fallback a. ad_summarize a (snd fallback) textOptions)"
| embed:
    "promiseOperation self options (embed self options textOptions)
       (\<lambda>fallback a. ad_createEmbeddings a (snd fallback) textOptions)"

section \<open>The effective fallback chain, in the words of the specification\<close>

text \<open>
  The per-call fallback list when it has at least one entry, otherwise the list configured
  in the constructor; an absent list has no entries.
\<close>

definition effectiveChain :: "fallback list option \<Rightarrow> fallback list option \<Rightarrow> fallback list" where
  "effectiveChain perCall configured =
     (case perCall of
        Some (e # es) \<Rightarrow> e # es
      | _ \<Rightarrow> (case configured of Some d \<Rightarrow> d | None \<Rightarrow> []))"

fun primaryOf :: "target \<Rightarrow> fallback option" where
  "primaryOf (WithAdapter adapter model fallbacks) = Some (adapter, model)"
| "primaryOf (FallbackOnly fallbacks) = None"

fun perCallFallbacks :: "target \<Rightarrow> fallback list option" where
  "perCallFallbacks (WithAdapter adapter model fallbacks) = fallbacks"
| "perCallFallbacks (FallbackOnly fallbacks) = Some fallbacks"

section \<open>Arrival order of tool-call indices\<close>

text \<open>The stream indices of the tool-call chunks of a round, in arrival order.\<close>

fun toolCallIndices :: "chunk list \<Rightarrow> nat list" where
  "toolCallIndices [] = []"
| "toolCallIndices (ToolCallChunk index callId name arguments # cs) = index # toolCallIndices cs"
| "toolCallIndices (c # cs) = toolCallIndices cs"

text \<open>Each element once, at the place of its first occurrence.\<close>

definition firstSeen :: "nat list \<Rightarrow> nat list" where
  "firstSeen xs = rev (remdups (rev xs))"

text \<open>
  What the fragments of one stream index amount to: the identifier of the first fragment,
  the last function name that is not empty (none: the empty string), and the argument
  texts concatenated in arrival order.
\<close>

fun fragmentsOf :: "nat \<Rightarrow> chunk list \<Rightarrow> (string \<times> string \<times> string) list" where
  "fragmentsOf i [] = []"
| "fragmentsOf i (ToolCallChunk index callId name arguments # cs) =
     (if index = i then (callId, name, arguments) # fragmentsOf i cs else fragmentsOf i cs)"
| "fragmentsOf i (c # cs) = fragmentsOf i cs"

definition lastNonEmpty :: "string list \<Rightarrow> string" where
  "lastNonEmpty names =
     (case rev (filter (\<lambda>n. n \<noteq> []) names) of [] \<Rightarrow> [] | n # earlier \<Rightarrow> n)"

definition assembled :: "nat \<Rightarrow> chunk list \<Rightarrow> ToolCall" where
  "assembled i chunks =
     ToolCall
       (case fragmentsOf i chunks of [] \<Rightarrow> [] | f # later \<Rightarrow> fst f)
       (lastNonEmpty (map (\<lambda>f. fst (snd f)) (fragmentsOf i chunks)))
       (concat (map (\<lambda>f. snd (snd f)) (fragmentsOf i chunks)))"

section \<open>Vocabulary for the tool-execution loop\<close>

text \<open>
  The adapter and model that \<^verbatim>\<open>chatStream\<close> settles on before it dispatches
  (\<^verbatim>\<open>adapterToUse\<close>, \<^verbatim>\<open>modelToUse\<close>): the primary, or in fallback-only mode the first
  entry of the fallback list.
\<close>

fun initiallyChosen :: "('o, 'r, 'j, 'w) AI \<Rightarrow> target \<Rightarrow> fallback option" where
  "initiallyChosen self (WithAdapter adapter model fallbacks) = Some (adapter, model)"
| "initiallyChosen self (FallbackOnly fallbacks) =
     (case fallbackEntries (fallbackListOf (Some fallbacks) (this_fallbacks self)) of
        [] \<Rightarrow> None
      | first # others \<Rightarrow> Some first)"

text \<open>
  A round goes on to execute tools when the test
  \<^verbatim>\<open>!hasToolCalls || toolCalls.length === 0\<close> after its stream is false.
\<close>

definition toolTriggering :: "chunk list \<Rightarrow> bool" where
  "toolTriggering chunks =
     (case foldl observe ([], [], False) chunks of
        (toolCallsMap, toolCalls, hasToolCalls) \<Rightarrow> hasToolCalls \<and> length toolCalls \<noteq> 0)"

definition maxIterationsOf :: "'o ChatRest \<Rightarrow> int" where
  "maxIterationsOf restOptions =
     (case rest_maxIterations restOptions of None \<Rightarrow> 5 | Some n \<Rightarrow> n)"

text \<open>No executable tool ever raises \<^verbatim>\<open>null\<close> or \<^verbatim>\<open>undefined\<close>.\<close>

definition toolsRaiseReadable :: "('j, 'w) Tool list option \<Rightarrow> bool" where
  "toolsRaiseReadable tools =
     (\<forall>tool execute args w.
        findTool tools (tool_name tool) = Some tool \<and> tool_execute tool = Some execute \<longrightarrow>
          fst (execute args w) \<noteq> Inl JsNull \<and> fst (execute args w) \<noteq> Inl JsUndefined)"

text \<open>An outcome that is a failure whose \<^verbatim>\<open>.message\<close> can be read.\<close>

definition failsReadably :: "thrown + 'r \<Rightarrow> bool" where
  "failsReadably outcome =
     (case outcome of Inl e \<Rightarrow> e \<noteq> JsNull \<and> e \<noteq> JsUndefined | Inr r \<Rightarrow> False)"

section \<open>Example backends\<close>

text \<open>
  A backend that answers every promise-mode call with the same outcome and every streaming
  call with the same iterable, and leaves the world alone.
\<close>

definition constAdapter ::
  "(thrown + 'r) \<Rightarrow> chunk iterable \<Rightarrow> ('o, 'r, 'j, 'w) AIAdapter" where
  "constAdapter outcome stream =
     \<lparr> ad_chatCompletion = (\<lambda>request w. (outcome, w)),
       ad_chatStream = (\<lambda>request w. (stream, w)),
       ad_generateText = (\<lambda>model request w. (outcome, w)),
       ad_generateTextStream = (\<lambda>model request w. (([], None), w)),
       ad_summarize = (\<lambda>model request w. (outcome, w)),
       ad_createEmbeddings = (\<lambda>model request w. (outcome, w)) \<rparr>"

definition start :: "(unit, 'c) exec" where
  "start = \<lparr> world = (), calls = [], yielded = [] \<rparr>"

text \<open>
  A registry of three such backends: two that fail every promise-mode call and break off
  their streams with an error chunk, and one that answers.
\<close>

definition exampleAI :: "(unit, string, unit, unit) AI" where
  "exampleAI =
     \<lparr> this_adapters =
         [(''primary'', constAdapter (Inl (JsError ''boom''))
                          ([ContentChunk ''He'' ''He'', ContentChunk ''y'' ''Hey'',
                            ErrorChunk ''cut''], None)),
          (''backup'', constAdapter (Inl (JsError ''down'')) ([ErrorChunk []], None)),
          (''good'', constAdapter (Inr ''hello'')
                       ([ContentChunk ''hi'' ''hi'', DoneChunk ''stop''], None))],
       this_fallbacks = None,
       this_tools = [] \<rparr>"

text \<open>
  A stand-in for the runtime's \<^verbatim>\<open>JSON\<close>: only the text \<^verbatim>\<open>{}\<close> parses, an error
  message is wrapped as it is, and a property that is \<^verbatim>\<open>undefined\<close> is left out.
\<close>

definition exampleJSON :: "unit JSON" where
  \<open>exampleJSON =
     \<lparr> JSON_parse = (\<lambda>text. if text = ''{}'' then Inr () else Inl ''Unexpected token''),
       JSON_stringify_error =
         (\<lambda>m. case m of None \<Rightarrow> ''{}'' | Some text \<Rightarrow> ''{"error":"'' @ text @ ''"}'') \<rparr>\<close>

definition exampleRest :: "unit ChatRest" where
  "exampleRest = \<lparr> rest_other = (), rest_messages = [], rest_maxIterations = None \<rparr>"

text \<open>
  A registry with a backend whose every stream asks for the tool \<^verbatim>\<open>lookup\<close> and then
  for the tool \<^verbatim>\<open>broken\<close>, a backend whose every stream carries an error chunk and then
  raises, and the two tools: one answers, one raises.
\<close>

definition lookupTool :: "(unit, unit) Tool" where
  "lookupTool = \<lparr> tool_name = ''lookup'', tool_execute = Some (\<lambda>args w. (Inr ''42'', w)) \<rparr>"

definition brokenTool :: "(unit, unit) Tool" where
  "brokenTool =
     \<lparr> tool_name = ''broken'', tool_execute = Some (\<lambda>args w. (Inl (JsError ''kaput''), w)) \<rparr>"

definition exampleToolAI :: "(unit, string, unit, unit) AI" where
  "exampleToolAI =
     \<lparr> this_adapters =
         [(''looper'', constAdapter (Inl (JsError ''boom''))
                         ([ToolCallChunk 0 ''call_1'' ''lookup'' ''{}'',
                           ToolCallChunk 1 ''call_2'' ''broken'' ''{}'',
                           DoneChunk ''tool_calls''], None)),
          (''flaky'', constAdapter (Inl (JsError ''boom''))
                        ([ContentChunk ''par'' ''par'', ErrorChunk ''overloaded''],
                         Some (JsError ''socket closed'')))],
       this_fallbacks = Some [(''looper'', ''m9'')],
       this_tools = [(''lookup'', lookupTool), (''broken'', brokenTool)] \<rparr>"

text \<open>
  A registry whose primary backend rejects every promise-mode call with \<^verbatim>\<open>undefined\<close>
  (as \<^verbatim>\<open>Promise.reject()\<close> does) and streams a request for the tool \<^verbatim>\<open>silent\<close>, which
  raises \<^verbatim>\<open>undefined\<close> as well; the second backend answers.
\<close>

definition silentTool :: "(unit, unit) Tool" where
  "silentTool =
     \<lparr> tool_name = ''silent'', tool_execute = Some (\<lambda>args w. (Inl JsUndefined, w)) \<rparr>"

definition exampleSilentAI :: "(unit, string, unit, unit) AI" where
  "exampleSilentAI =
     \<lparr> this_adapters =
         [(''silent'', constAdapter (Inl JsUndefined)
                         ([ToolCallChunk 0 ''call_3'' ''silent'' ''{}'',
                           DoneChunk ''tool_calls''], None)),
          (''good'', constAdapter (Inr ''hello'')
                       ([ContentChunk ''hi'' ''hi'', DoneChunk ''stop''], None))],
       this_fallbacks = None,
       this_tools = [(''silent'', silentTool)] \<rparr>"

text \<open>A store that holds the first registry as its only instance.\<close>

definition exampleStore :: "(unit, string, unit, unit) store" where
  "exampleStore = \<lparr> objects = [0 \<mapsto> exampleAI], nextRef = 1 \<rparr>"

section \<open>Lookups and the shape of the promise-mode operations\<close>

lemma getAdapter_registered:
  "map_of (this_adapters self) name = Some a \<Longrightarrow> getAdapter self name = Inr a"
  by (simp add: getAdapter_def)

lemma invoke_registered:
  assumes "map_of (this_adapters self) (fst fb) = Some a"
  shows "invoke self fb method s =
    (Inr (fst (method a (world s))),
     s\<lparr>world := snd (method a (world s)), calls := calls s @ [fb]\<rparr>)"
  using assms by (simp add: invoke_def getAdapter_registered split: prod.splits)

lemma awaited_invoke_registered:
  assumes "map_of (this_adapters self) (fst fb) = Some a"
  shows "awaited (invoke self fb method s) =
    (fst (method a (world s)),
     s\<lparr>world := snd (method a (world s)), calls := calls s @ [fb]\<rparr>)"
  by (simp add: invoke_registered [OF assms] awaited_def)

lemma promiseOperation_shape:
  assumes "promiseOperation self options run method"
  shows "\<exists>label. \<forall>s. run s =
    (case options of
       FallbackOnly fallbacks \<Rightarrow>
         (let fallbackList = fallbackListOf (Some fallbacks) (this_fallbacks self)
          in if noFallbacks fallbackList then (Inl noFallbacksError, s)
             else tryWithFallback (fallbackEntries fallbackList)
                    (\<lambda>fb s. awaited (invoke self fb (method fb) s)) label s)
     | WithAdapter adapter model fallbacks \<Rightarrow>
         (let fallbackList = fallbackListOf fallbacks (this_fallbacks self)
          in case awaited (invoke self (adapter, model) (method (adapter, model)) s) of
               (Inr result, s') \<Rightarrow> (Inr result, s')
             | (Inl primaryError, s') \<Rightarrow>
                 if noFallbacks fallbackList then (Inl primaryError, s')
                 else
                   (case readMessage primaryError of
                      Inl typeError \<Rightarrow> (Inl typeError, s')
                    | Inr text \<Rightarrow>
                        tryWithFallback (fallbackEntries fallbackList)
                          (\<lambda>fb s. awaited (invoke self fb (method fb) s))
                          (label @ '' (after primary failure)'') s')))"
  using assms
proof (induct rule: promiseOperation.induct)
  case (chat tools toolObjects restOptions)
  show ?case
    by (rule exI [of _ "''chat''"])
       (simp add: chat chatPromise_def fallbackListOf_def Let_def
             split: target.splits prod.splits sum.splits)
next
  case (generateText textOptions)
  show ?case
    by (rule exI [of _ "''generateText''"])
       (simp add: generateText_def Let_def split: target.splits prod.splits sum.splits)
next
  case (summarize textOptions)
  show ?case
    by (rule exI [of _ "''summarize''"])
       (simp add: summarize_def Let_def split: target.splits prod.splits sum.splits)
next
  case (embed textOptions)
  show ?case
    by (rule exI [of _ "''embed''"])
       (simp add: embed_def Let_def split: target.splits prod.splits sum.splits)
qed


section \<open>The promise-mode walk\<close>

lemma failsReadably_obtain:
  assumes "failsReadably outcome"
  obtains e msg where "outcome = Inl e" "readMessage e = Inr msg"
  using assms
  by (cases outcome; cases "projl outcome")
     (auto simp: failsReadably_def readMessage_def)

lemma walker_first_success:
  assumes "k < length fbs"
    and "\<forall>i<k. \<exists>a. map_of (this_adapters self) (fst (fbs ! i)) = Some a
            \<and> (\<forall>w. failsReadably (fst (method (fbs ! i) a w)))"
    and "map_of (this_adapters self) (fst (fbs ! k)) = Some ak"
    and "\<forall>w. \<not> isl (fst (method (fbs ! k) ak w))"
  shows "\<exists>w. tryWithFallback_loop errs fbs
               (\<lambda>fb s. awaited (invoke self fb (method fb) s)) label s
           = (fst (method (fbs ! k) ak w),
              s\<lparr>world := snd (method (fbs ! k) ak w), calls := calls s @ take (Suc k) fbs\<rparr>)"
  using assms
proof (induction fbs arbitrary: k errs s)
  case Nil
  then show ?case by simp
next
  case (Cons fb rest)
  show ?case
  proof (cases k)
    case 0
    with Cons.prems have reg: "map_of (this_adapters self) (fst fb) = Some ak"
      and ok: "\<not> isl (fst (method fb ak (world s)))" by auto
    from ok obtain r where r: "fst (method fb ak (world s)) = Inr r"
      by (cases "fst (method fb ak (world s))") auto
    show ?thesis
      using 0 r by (intro exI [of _ "world s"])
        (simp add: awaited_invoke_registered [OF reg])
  next
    case (Suc j)
    with Cons.prems obtain a where reg: "map_of (this_adapters self) (fst fb) = Some a"
      and bad: "\<forall>w. failsReadably (fst (method fb a w))" by fastforce
    from bad obtain e msg where e: "fst (method fb a (world s)) = Inl e"
      and readable: "readMessage e = Inr msg"
      by (meson failsReadably_obtain)
    let ?s1 = "s\<lparr>world := snd (method fb a (world s)), calls := calls s @ [fb]\<rparr>"
    have "\<exists>w. tryWithFallback_loop (errs @ [(fst fb, snd fb, asError e)]) rest
               (\<lambda>fb s. awaited (invoke self fb (method fb) s)) label ?s1
           = (fst (method (rest ! j) ak w),
              ?s1\<lparr>world := snd (method (rest ! j) ak w), calls := calls ?s1 @ take (Suc j) rest\<rparr>)"
      using Cons.prems Suc by (intro Cons.IH) auto
    then show ?thesis
      using Suc e readable by (simp add: awaited_invoke_registered [OF reg])
  qed
qed

lemma walker_all_fail:
  assumes "\<forall>fb\<in>set fbs. \<forall>s. failsReadably (fst (operation fb s))"
  shows "\<exists>errors s'. tryWithFallback_loop errs fbs operation label s
            = (Inl (allAdaptersFailed label (errs @ errors)), s')
          \<and> map (\<lambda>e. (fst e, fst (snd e))) errors = fbs"
  using assms
proof (induction fbs arbitrary: errs s)
  case Nil
  then show ?case by simp
next
  case (Cons fb rest)
  from Cons.prems have "failsReadably (fst (operation fb s))" by simp
  then obtain e msg where "fst (operation fb s) = Inl e" and readable: "readMessage e = Inr msg"
    by (rule failsReadably_obtain)
  then obtain s1 where op: "operation fb s = (Inl e, s1)"
    by (cases "operation fb s") auto
  from Cons.prems have "\<forall>fb\<in>set rest. \<forall>s. failsReadably (fst (operation fb s))" by simp
  from Cons.IH [OF this, of "errs @ [(fst fb, snd fb, asError e)]" s1]
  obtain errors s' where
    "tryWithFallback_loop (errs @ [(fst fb, snd fb, asError e)]) rest operation label s1
       = (Inl (allAdaptersFailed label ((errs @ [(fst fb, snd fb, asError e)]) @ errors)), s')"
    "map (\<lambda>e. (fst e, fst (snd e))) errors = rest" by blast
  then show ?case
    using op readable
    by (intro exI [of _ "(fst fb, snd fb, asError e) # errors"] exI [of _ s']) simp
qed

text \<open>
  Claim C2. For each of the four promise-mode operations called with a primary adapter
  and model: the outcome of the primary backend call is the outcome of the operation, and
  the primary call is the only backend call made, whenever that outcome is a result, or is
  an error while the fallback list in effect is empty or absent. The error is handed on as
  it was raised.
\<close>

theorem promise_primary_outcome:
  assumes "promiseOperation self (WithAdapter adapter model fallbacks) run method"
    and "map_of (this_adapters self) adapter = Some a"
    and "method (adapter, model) a (world s) = (outcome, w')"
    and "isl outcome \<longrightarrow> noFallbacks (fallbackListOf fallbacks (this_fallbacks self))"
  shows "run s = (outcome, s\<lparr>world := w', calls := calls s @ [(adapter, model)]\<rparr>)"
proof -
  from promiseOperation_shape [OF assms(1)] obtain label where
    shape: "run s =
      (let fallbackList = fallbackListOf fallbacks (this_fallbacks self)
       in case awaited (invoke self (adapter, model) (method (adapter, model)) s) of
            (Inr result, s') \<Rightarrow> (Inr result, s')
          | (Inl primaryError, s') \<Rightarrow>
              if noFallbacks fallbackList then (Inl primaryError, s')
              else
                (case readMessage primaryError of
                   Inl typeError \<Rightarrow> (Inl typeError, s')
                 | Inr text \<Rightarrow>
                     tryWithFallback (fallbackEntries fallbackList)
                       (\<lambda>fb s. awaited (invoke self fb (method fb) s))
                       (label @ '' (after primary failure)'') s'))"
    by (auto dest: spec [of _ s])
  have reg: "map_of (this_adapters self) (fst (adapter, model)) = Some a"
    using assms(2) by simp
  show ?thesis
    using assms(3,4)
    by (cases outcome) (simp_all add: shape awaited_invoke_registered [OF reg])
qed

theorem promise_primary_outcome_witness:
  "map_of (this_adapters exampleAI) ''primary'' = Some (constAdapter (Inl (JsError ''boom''))
       ([ContentChunk ''He'' ''He'', ContentChunk ''y'' ''Hey'', ErrorChunk ''cut''], None))
   \<and> noFallbacks (fallbackListOf None (this_fallbacks exampleAI))
   \<and> embed exampleAI (WithAdapter ''primary'' ''m0'' None) () (start :: (unit, chunk) exec)
       = (Inl (JsError ''boom''), start\<lparr>calls := [(''primary'', ''m0'')]\<rparr>)"
proof -
  let ?a = "constAdapter (Inl (JsError ''boom''))
       ([ContentChunk ''He'' ''He'', ContentChunk ''y'' ''Hey'', ErrorChunk ''cut''], None)
       :: (unit, string, unit, unit) AIAdapter"
  have reg: "map_of (this_adapters exampleAI) ''primary'' = Some ?a"
    by (simp add: exampleAI_def)
  have call: "ad_createEmbeddings ?a (snd (''primary'', ''m0'')) () (world (start :: (unit, chunk) exec))
                = (Inl (JsError ''boom''), ())"
    by (simp add: constAdapter_def)
  have none: "noFallbacks (fallbackListOf None (this_fallbacks exampleAI))"
    by (simp add: noFallbacks_def fallbackListOf_def exampleAI_def)
  then have guard: "isl (Inl (JsError ''boom'') :: thrown + string)
      \<longrightarrow> noFallbacks (fallbackListOf None (this_fallbacks exampleAI))" by simp
  from promise_primary_outcome [OF promiseOperation.embed reg call guard] reg none
  show ?thesis by (simp add: start_def)
qed

text \<open>
  With failures whose message can be read, the walk behaves as specified: when the primary
  always fails and the \<open>k\<close>-th chain entry (counted from one) is the first that succeeds,
  the calls made are the primary and the first \<open>k\<close> entries, and the result is that of
  entry \<open>k\<close>.
\<close>

lemma promise_first_success_readable:
  assumes op: "promiseOperation self (WithAdapter adapter model fallbacks) run method"
    and chain: "chain = fallbackEntries (fallbackListOf fallbacks (this_fallbacks self))"
    and primary: "map_of (this_adapters self) adapter = Some a0"
      "\<forall>w. failsReadably (fst (method (adapter, model) a0 w))"
    and k: "1 \<le> k" "k \<le> length chain"
    and earlier: "\<forall>i<k - 1. \<exists>a. map_of (this_adapters self) (fst (chain ! i)) = Some a
                     \<and> (\<forall>w. failsReadably (fst (method (chain ! i) a w)))"
    and entry: "map_of (this_adapters self) (fst (chain ! (k - 1))) = Some ak"
      "\<forall>w. \<not> isl (fst (method (chain ! (k - 1)) ak w))"
  shows "\<exists>w. run s = (fst (method (chain ! (k - 1)) ak w),
                      s\<lparr>world := snd (method (chain ! (k - 1)) ak w),
                        calls := calls s @ (adapter, model) # take k chain\<rparr>)
             \<and> \<not> isl (fst (run s))
             \<and> length (calls (snd (run s))) = length (calls s) + (k + 1)"
proof -
  from promiseOperation_shape [OF op] obtain label where
    shape: "run s =
      (let fallbackList = fallbackListOf fallbacks (this_fallbacks self)
       in case awaited (invoke self (adapter, model) (method (adapter, model)) s) of
            (Inr result, s') \<Rightarrow> (Inr result, s')
          | (Inl primaryError, s') \<Rightarrow>
              if noFallbacks fallbackList then (Inl primaryError, s')
              else
                (case readMessage primaryError of
                   Inl typeError \<Rightarrow> (Inl typeError, s')
                 | Inr text \<Rightarrow>
                     tryWithFallback (fallbackEntries fallbackList)
                       (\<lambda>fb s. awaited (invoke self fb (method fb) s))
                       (label @ '' (after primary failure)'') s'))"
    by (auto dest: spec [of _ s])
  have reg: "map_of (this_adapters self) (fst (adapter, model)) = Some a0"
    using primary(1) by simp
  from primary(2) obtain e msg where e: "fst (method (adapter, model) a0 (world s)) = Inl e"
    and readable: "readMessage e = Inr msg"
    by (meson failsReadably_obtain)
  have nonempty: "\<not> noFallbacks (fallbackListOf fallbacks (this_fallbacks self))"
    using k chain by (auto simp: noFallbacks_def fallbackEntries_def split: option.splits)
  let ?s1 = "s\<lparr>world := snd (method (adapter, model) a0 (world s)),
               calls := calls s @ [(adapter, model)]\<rparr>"
  have run: "run s = tryWithFallback_loop [] chain
                 (\<lambda>fb s. awaited (invoke self fb (method fb) s))
                 (label @ '' (after primary failure)'') ?s1"
    using e readable nonempty
    by (simp add: shape awaited_invoke_registered [OF reg] tryWithFallback_def chain)
  have "k - 1 < length chain" using k by simp
  from walker_first_success [OF this earlier entry, of "[]" _ ?s1]
  obtain w where
    "tryWithFallback_loop [] chain (\<lambda>fb s. awaited (invoke self fb (method fb) s))
        (label @ '' (after primary failure)'') ?s1
      = (fst (method (chain ! (k - 1)) ak w),
         ?s1\<lparr>world := snd (method (chain ! (k - 1)) ak w),
             calls := calls ?s1 @ take (Suc (k - 1)) chain\<rparr>)" by blast
  with run k entry(2) show ?thesis
    by (intro exI [of _ w]) simp
qed

text \<open>
  Claim C3. A primary that rejects with \<^verbatim>\<open>undefined\<close>, and a fallback chain whose first
  entry would answer: the \<^verbatim>\<open>catch\<close> block of the primary attempt evaluates
  \<^verbatim>\<open>primaryError.message\<close> for its warning, which raises a \<^verbatim>\<open>TypeError\<close>. That error is
  the outcome; one backend call was made, and the chain entry was never tried. The same
  happens in \<^verbatim>\<open>tryWithFallback\<close> when a chain entry rejects with \<^verbatim>\<open>undefined\<close>.
\<close>

theorem promise_nullish_rejection_stops_walk:
  "summarize exampleSilentAI (WithAdapter ''silent'' ''m0'' (Some [(''good'', ''m2'')])) ()
     (start :: (unit, chunk) exec)
   = (Inl (typeErrorOn ''undefined''), start\<lparr>calls := [(''silent'', ''m0'')]\<rparr>)
   \<and> summarize exampleSilentAI (WithAdapter ''good'' ''m2'' None) ()
        (start :: (unit, chunk) exec)
     = (Inr ''hello'', start\<lparr>calls := [(''good'', ''m2'')]\<rparr>)
   \<and> summarize exampleSilentAI (FallbackOnly [(''silent'', ''m0''), (''good'', ''m2'')]) ()
        (start :: (unit, chunk) exec)
     = (Inl (typeErrorOn ''undefined''), start\<lparr>calls := [(''silent'', ''m0'')]\<rparr>)"
  by (simp add: summarize_def fallbackListOf_def noFallbacks_def fallbackEntries_def
        tryWithFallback_def invoke_def awaited_def getAdapter_def exampleSilentAI_def
        constAdapter_def start_def readMessage_def)

text \<open>
  When the primary and every entry of a non-empty chain fail with a readable message, the
  error a promise-mode operation raises lists one failure per chain entry, in chain order,
  and nothing else.
\<close>

lemma promise_all_fail_lists_chain_only:
  fixes s :: "('w, 'c) exec"
  assumes op: "promiseOperation self (WithAdapter adapter model fallbacks) run method"
    and chain: "chain = fallbackEntries (fallbackListOf fallbacks (this_fallbacks self))"
      "chain \<noteq> []"
    and primary: "failsReadably
        (fst (awaited (invoke self (adapter, model) (method (adapter, model)) s)))"
    and others: "\<forall>fb\<in>set chain. \<forall>s' :: ('w, 'c) exec.
        failsReadably (fst (awaited (invoke self fb (method fb) s')))"
  shows "\<exists>label errors. fst (run s) = Inl (allAdaptersFailed label errors)
           \<and> map (\<lambda>e. (fst e, fst (snd e))) errors = chain"
proof -
  from promiseOperation_shape [OF op] obtain label where
    shape: "run s =
      (let fallbackList = fallbackListOf fallbacks (this_fallbacks self)
       in case awaited (invoke self (adapter, model) (method (adapter, model)) s) of
            (Inr result, s') \<Rightarrow> (Inr result, s')
          | (Inl primaryError, s') \<Rightarrow>
              if noFallbacks fallbackList then (Inl primaryError, s')
              else
                (case readMessage primaryError of
                   Inl typeError \<Rightarrow> (Inl typeError, s')
                 | Inr text \<Rightarrow>
                     tryWithFallback (fallbackEntries fallbackList)
                       (\<lambda>fb s. awaited (invoke self fb (method fb) s))
                       (label @ '' (after primary failure)'') s'))"
    by (auto dest: spec [of _ s])
  from primary obtain e msg where
    "fst (awaited (invoke self (adapter, model) (method (adapter, model)) s)) = Inl e"
    and readable: "readMessage e = Inr msg"
    by (rule failsReadably_obtain)
  then obtain s1 where first:
    "awaited (invoke self (adapter, model) (method (adapter, model)) s) = (Inl e, s1)"
    by (cases "awaited (invoke self (adapter, model) (method (adapter, model)) s)") auto
  have nonempty: "\<not> noFallbacks (fallbackListOf fallbacks (this_fallbacks self))"
    using chain by (auto simp: noFallbacks_def fallbackEntries_def split: option.splits)
  have run: "run s = tryWithFallback_loop [] chain
      (\<lambda>fb s. awaited (invoke self fb (method fb) s)) (label @ '' (after primary failure)'') s1"
    using first readable nonempty by (simp add: shape tryWithFallback_def chain(1))
  from walker_all_fail [OF others, of "[]" "label @ '' (after primary failure)''" s1]
  obtain errors s' where
    "tryWithFallback_loop [] chain (\<lambda>fb s. awaited (invoke self fb (method fb) s))
        (label @ '' (after primary failure)'') s1
       = (Inl (allAdaptersFailed (label @ '' (after primary failure)'') errors), s')"
    "map (\<lambda>e. (fst e, fst (snd e))) errors = chain" by auto
  then show ?thesis
    unfolding run by (intro exI [of _ "label @ '' (after primary failure)''"] exI [of _ errors]) simp
qed

text \<open>
  Claim C1. A chat promise with a primary and one fallback, both failing: the error raised
  is built by \<^verbatim>\<open>tryWithFallback\<close> from its own \<^verbatim>\<open>errors\<close> array, which holds the
  failure of the fallback only. Two backend calls were made; the list has one line, and the
  primary's failure (``boom'') is not in it.
\<close>

theorem promise_all_fail_drops_primary:
  "chatPromise exampleAI (WithAdapter ''primary'' ''m0'' (Some [(''backup'', ''m1'')])) None
     exampleRest
     (start :: (unit, chunk) exec)
   = (Inl (allAdaptersFailed ''chat (after primary failure)'' [(''backup'', ''m1'', JsError ''down'')]),
      start\<lparr>calls := [(''primary'', ''m0''), (''backup'', ''m1'')]\<rparr>)
   \<and> message (allAdaptersFailed ''chat (after primary failure)''
        [(''backup'', ''m1'', JsError ''down'')])
     = ''All adapters failed for chat (after primary failure):'' @ [CHR 0x0A] @ ''  - backup (m1): down''"
  by (simp add: chatPromise_def toolObjectsOf_def fallbackListOf_def noFallbacks_def
        fallbackEntries_def tryWithFallback_def invoke_def awaited_def getAdapter_def
        exampleAI_def constAdapter_def chatRequest_def start_def allAdaptersFailed_def
        errorLine_def exampleRest_def readMessage_def asError_def)


section \<open>Extension by an adapter\<close>

lemma map_of_insertIndexed:
  "name \<notin> fst ` set properties \<Longrightarrow>
     map_of (insertIndexed n name v properties) = (map_of properties)(name \<mapsto> v)"
proof (induction properties)
  case Nil
  then show ?case by simp
next
  case (Cons p properties)
  then have neq: "name \<noteq> fst p" and rest: "name \<notin> fst ` set properties" by auto
  show ?case
  proof (cases "\<exists>j. arrayIndex (fst p) = Some j \<and> j < n")
    case True
    then have "insertIndexed n name v (p # properties) = p # insertIndexed n name v properties"
      by auto
    then show ?thesis
      using Cons.IH [OF rest] neq by (cases p) (auto simp: fun_upd_twist)
  next
    case False
    then have "insertIndexed n name v (p # properties) = (name, v) # p # properties"
      by (cases "arrayIndex (fst p)") auto
    then show ?thesis by (simp add: fun_eq_iff del: insertIndexed.simps)
  qed
qed

lemma map_of_append_new:
  "name \<notin> fst ` set properties \<Longrightarrow>
     map_of (properties @ [(name, v)]) = (map_of properties)(name \<mapsto> v)"
  by (induction properties) (auto simp: fun_upd_twist)

lemma map_of_objectSet:
  "map_of (objectSet name v properties) = (map_of properties)(name \<mapsto> v)"
proof (cases "name \<in> fst ` set properties")
  case True
  then show ?thesis by (simp add: objectSet_def update_conv')
next
  case False
  then show ?thesis
    by (cases "arrayIndex name")
       (simp_all add: objectSet_def map_of_insertIndexed map_of_append_new del: map_of_append)
qed

lemma objectSet_present:
  "name \<in> fst ` set properties \<Longrightarrow>
     map fst (objectSet name v properties) = map fst properties"
  by (simp add: objectSet_def update_keys)

text \<open>
  Claim C9. \<^verbatim>\<open>addAdapter\<close> on an instance of a well-formed store allocates a new
  instance and returns its reference. The new instance's adapters are the receiver's with
  the entry added (or overwritten in place), it has no default fallbacks and an empty tool
  registry. The receiver, with its adapters, fallbacks and tools, and every other instance
  of the store are as before. The keys of the new registry are listed as JavaScript lists
  them: a new name that is an array index goes among the indices, any other new name last.
\<close>

theorem addAdapter_frame:
  assumes "wf_store h" and "objects h this = Some self"
  shows "\<exists>r h'. addAdapter h this name adapter = Some (r, h')
     \<and> r \<noteq> this \<and> objects h r = None
     \<and> objects h' this = Some self
     \<and> (\<forall>q. q \<noteq> r \<longrightarrow> objects h' q = objects h q)
     \<and> (\<exists>created. objects h' r = Some created
          \<and> map_of (this_adapters created) = (map_of (this_adapters self))(name \<mapsto> adapter)
          \<and> this_adapters created = objectSet name adapter (this_adapters self)
          \<and> this_fallbacks created = None
          \<and> this_tools created = [])
     \<and> wf_store h'"
proof -
  have fresh: "objects h (nextRef h) = None"
    using assms(1) unfolding wf_store_def by (metis less_irrefl)
  have neq: "nextRef h \<noteq> this"
    using fresh assms(2) by auto
  have wf': "wf_store (h\<lparr>objects := (objects h)(nextRef h \<mapsto> c), nextRef := nextRef h + 1\<rparr>)" for c
    using assms(1) unfolding wf_store_def by (auto simp: less_Suc_eq)
  show ?thesis
    using fresh neq wf' assms(2)
    by (simp add: addAdapter_def AI_new_def Let_def map_of_objectSet)
qed

theorem addAdapter_frame_witness:
  "wf_store exampleStore \<and> objects exampleStore 0 = Some exampleAI
   \<and> (\<exists>h'. addAdapter exampleStore 0 ''good'' (constAdapter (Inr ''again'') ([], None)) = Some (1, h')
        \<and> objects h' 0 = Some exampleAI
        \<and> (\<exists>created. objects h' 1 = Some created
              \<and> map fst (this_adapters created) = [''primary'', ''backup'', ''good'']))"
proof -
  have wf: "wf_store exampleStore"
    by (simp add: wf_store_def exampleStore_def)
  have obj: "objects exampleStore 0 = Some exampleAI"
    by (simp add: exampleStore_def)
  from addAdapter_frame [OF wf obj, of "''good''" "constAdapter (Inr ''again'') ([], None)"]
  show ?thesis
    using wf obj
    by (auto simp: addAdapter_def exampleStore_def exampleAI_def AI_new_def Let_def objectSet_def)
qed

text \<open>
  The order of the keys: a name that is an array index is listed before the names that are
  not, whenever it is added; other new names are listed last.
\<close>

lemma objectSet_key_order:
  "map fst (objectSet ''7'' v [(''2'', a), (''10'', b), (''primary'', c)])
     = [''2'', ''7'', ''10'', ''primary'']
   \<and> map fst (objectSet ''07'' v [(''2'', a), (''10'', b), (''primary'', c)])
     = [''2'', ''10'', ''primary'', ''07'']
   \<and> map fst (objectSet ''backup'' v [(''2'', a), (''10'', b), (''primary'', c)])
     = [''2'', ''10'', ''primary'', ''backup'']"
  by (simp add: objectSet_def arrayIndex_def isDigit_def digitsValue_def)


section \<open>Every operation works with the effective chain\<close>

lemma entries_effectiveChain:
  "fallbackEntries (fallbackListOf perCall configured) = effectiveChain perCall configured"
  by (auto simp: fallbackEntries_def fallbackListOf_def effectiveChain_def
           split: option.splits list.splits)

lemma noFallbacks_entries: "noFallbacks fl = (fallbackEntries fl = [])"
  by (simp add: noFallbacks_def fallbackEntries_def split: option.splits)

lemma chatPromise_inline_fallbackList:
  "(if length fallbacks > 0 then Some fallbacks else configured)
     = fallbackListOf (Some fallbacks) configured"
  by (simp add: fallbackListOf_def)

lemma getAdapter_fallbacks_update [simp]:
  "getAdapter (self\<lparr>this_fallbacks := d\<rparr>) = getAdapter self"
  by (rule ext) (simp add: getAdapter_def cong: option.case_cong)

lemma getTool_fallbacks_update [simp]:
  "getTool (self\<lparr>this_fallbacks := d\<rparr>) name = getTool self name"
  by (simp add: getTool_def cong: option.case_cong)

lemma getToolsByNames_fallbacks_update [simp]:
  "getToolsByNames (self\<lparr>this_fallbacks := d\<rparr>) names = getToolsByNames self names"
  by (induction names) (simp_all cong: sum.case_cong)

lemma toolObjectsOf_fallbacks_update [simp]:
  "toolObjectsOf (self\<lparr>this_fallbacks := d\<rparr>) = toolObjectsOf self"
  by (rule ext) (simp add: toolObjectsOf_def cong: option.case_cong)

lemma invoke_fallbacks_update [simp]:
  "invoke (self\<lparr>this_fallbacks := d\<rparr>) = invoke self"
  by (intro ext) (simp add: invoke_def)

lemmas chain_norm =
  chatPromise_inline_fallbackList noFallbacks_entries entries_effectiveChain
  getAdapter_fallbacks_update toolObjectsOf_fallbacks_update invoke_fallbacks_update

lemma chain_cases:
  assumes "primaryOf o1 = primaryOf o2"
  obtains (primary) adapter model f1 f2 where
      "o1 = WithAdapter adapter model f1" "o2 = WithAdapter adapter model f2"
    | (fallbackOnly) f1 f2 where "o1 = FallbackOnly f1" "o2 = FallbackOnly f2"
  using assms by (cases o1; cases o2) auto

lemma generateText_chain:
  assumes "primaryOf o1 = primaryOf o2"
    and "effectiveChain (perCallFallbacks o1) d1 = effectiveChain (perCallFallbacks o2) d2"
  shows "generateText (self\<lparr>this_fallbacks := d1\<rparr>) o1 rest s
       = generateText (self\<lparr>this_fallbacks := d2\<rparr>) o2 rest s"
  using assms(1)
proof (cases rule: chain_cases)
  case primary
  with assms(2) show ?thesis
    unfolding generateText_def Let_def chain_norm
    by (simp cong: sum.case_cong prod.case_cong option.case_cong if_cong)
next
  case fallbackOnly
  with assms(2) show ?thesis
    unfolding generateText_def Let_def chain_norm
    by (simp cong: sum.case_cong prod.case_cong option.case_cong if_cong)
qed

lemma summarize_chain:
  assumes "primaryOf o1 = primaryOf o2"
    and "effectiveChain (perCallFallbacks o1) d1 = effectiveChain (perCallFallbacks o2) d2"
  shows "summarize (self\<lparr>this_fallbacks := d1\<rparr>) o1 rest s
       = summarize (self\<lparr>this_fallbacks := d2\<rparr>) o2 rest s"
  using assms(1)
proof (cases rule: chain_cases)
  case primary
  with assms(2) show ?thesis
    unfolding summarize_def Let_def chain_norm
    by (simp cong: sum.case_cong prod.case_cong option.case_cong if_cong)
next
  case fallbackOnly
  with assms(2) show ?thesis
    unfolding summarize_def Let_def chain_norm
    by (simp cong: sum.case_cong prod.case_cong option.case_cong if_cong)
qed

lemma summarize_noFallbacks:
  assumes "effectiveChain (Some f) (this_fallbacks self) = []"
  shows "summarize self (FallbackOnly f) rest s = (Inl noFallbacksError, s)"
  using assms unfolding summarize_def Let_def chain_norm by simp

lemma embed_chain:
  assumes "primaryOf o1 = primaryOf o2"
    and "effectiveChain (perCallFallbacks o1) d1 = effectiveChain (perCallFallbacks o2) d2"
  shows "embed (self\<lparr>this_fallbacks := d1\<rparr>) o1 rest s
       = embed (self\<lparr>this_fallbacks := d2\<rparr>) o2 rest s"
  using assms(1)
proof (cases rule: chain_cases)
  case primary
  with assms(2) show ?thesis
    unfolding embed_def Let_def chain_norm
    by (simp cong: sum.case_cong prod.case_cong option.case_cong if_cong)
next
  case fallbackOnly
  with assms(2) show ?thesis
    unfolding embed_def Let_def chain_norm
    by (simp cong: sum.case_cong prod.case_cong option.case_cong if_cong)
qed

lemma embed_noFallbacks:
  assumes "effectiveChain (Some f) (this_fallbacks self) = []"
  shows "embed self (FallbackOnly f) rest s = (Inl noFallbacksError, s)"
  using assms unfolding embed_def Let_def chain_norm by simp

lemma chatPromise_chain:
  assumes "primaryOf o1 = primaryOf o2"
    and "effectiveChain (perCallFallbacks o1) d1 = effectiveChain (perCallFallbacks o2) d2"
  shows "chatPromise (self\<lparr>this_fallbacks := d1\<rparr>) o1 tools rest s
       = chatPromise (self\<lparr>this_fallbacks := d2\<rparr>) o2 tools rest s"
  using assms(1)
proof (cases rule: chain_cases)
  case primary
  with assms(2) show ?thesis
    unfolding chatPromise_def Let_def chain_norm
    by (simp cong: sum.case_cong prod.case_cong option.case_cong if_cong)
next
  case fallbackOnly
  with assms(2) show ?thesis
    unfolding chatPromise_def Let_def chain_norm
    by (simp cong: sum.case_cong prod.case_cong option.case_cong if_cong)
qed

lemma chatPromise_noFallbacks:
  assumes "effectiveChain (Some f) (this_fallbacks self) = []"
  shows "chatPromise self (FallbackOnly f) tools rest s = (Inl noFallbacksError, s)"
  using assms unfolding chatPromise_def Let_def chain_norm by simp

lemma generateTextStream_chain:
  assumes "primaryOf o1 = primaryOf o2"
    and "effectiveChain (perCallFallbacks o1) d1 = effectiveChain (perCallFallbacks o2) d2"
  shows "generateTextStream (self\<lparr>this_fallbacks := d1\<rparr>) o1 rest s
       = generateTextStream (self\<lparr>this_fallbacks := d2\<rparr>) o2 rest s"
  using assms(1)
proof (cases rule: chain_cases)
  case primary
  with assms(2) show ?thesis
    unfolding generateTextStream_def Let_def chain_norm
    by (simp cong: sum.case_cong prod.case_cong option.case_cong if_cong)
next
  case fallbackOnly
  with assms(2) show ?thesis
    unfolding generateTextStream_def Let_def chain_norm
    by (simp cong: sum.case_cong prod.case_cong option.case_cong if_cong)
qed

lemma generateTextStream_noFallbacks:
  assumes "effectiveChain (Some f) (this_fallbacks self) = []"
  shows "generateTextStream self (FallbackOnly f) rest s = (Inl noFallbacksError, s)"
  using assms unfolding generateTextStream_def Let_def chain_norm by simp

lemma chatStream_body_entries:
  assumes "fallbackEntries fl1 = fallbackEntries fl2"
  shows "chatStream_body json (self\<lparr>this_fallbacks := d1\<rparr>) b a m fl1 tools rest s
       = chatStream_body json (self\<lparr>this_fallbacks := d2\<rparr>) b a m fl2 tools rest s"
  unfolding chatStream_body_def chatStream_plain_def Let_def noFallbacks_entries
    getAdapter_fallbacks_update toolObjectsOf_fallbacks_update invoke_fallbacks_update assms
  by (rule refl)

lemma chatStream_chain:
  assumes "primaryOf o1 = primaryOf o2"
    and "effectiveChain (perCallFallbacks o1) d1 = effectiveChain (perCallFallbacks o2) d2"
  shows "chatStream json (self\<lparr>this_fallbacks := d1\<rparr>) o1 tools rest s
       = chatStream json (self\<lparr>this_fallbacks := d2\<rparr>) o2 tools rest s"
  using assms(1)
proof (cases rule: chain_cases)
  case (primary adapter model f1 f2)
  have eq: "fallbackEntries (fallbackListOf f1 d1) = fallbackEntries (fallbackListOf f2 d2)"
    using assms(2) primary by (simp add: entries_effectiveChain)
  show ?thesis
    by (simp add: primary chatStream_def chatStream_body_entries [OF eq, where ?d1.0 = d1 and ?d2.0 = d2])
next
  case (fallbackOnly f1 f2)
  have eq: "fallbackEntries (fallbackListOf (Some f1) d1) = fallbackEntries (fallbackListOf (Some f2) d2)"
    using assms(2) fallbackOnly by (simp add: entries_effectiveChain)
  show ?thesis
    by (simp add: fallbackOnly chatStream_def Let_def noFallbacks_entries eq
          chatStream_body_entries [OF eq, where ?d1.0 = d1 and ?d2.0 = d2])
qed

lemma chatStream_noFallbacks:
  assumes "effectiveChain (Some f) (this_fallbacks self) = []"
  shows "chatStream json self (FallbackOnly f) tools rest s = (Inl noFallbacksError, s)"
  using assms unfolding chatStream_def chatStream_body_def chatStream_plain_def Let_def chain_norm by simp

lemma generateText_noFallbacks:
  assumes "effectiveChain (Some f) (this_fallbacks self) = []"
  shows "generateText self (FallbackOnly f) rest s = (Inl noFallbacksError, s)"
  using assms unfolding generateText_def Let_def chain_norm by simp

lemma promise_fallbackOnly_walks_chain:
  assumes "promiseOperation self (FallbackOnly f) run method"
    and "effectiveChain (Some f) (this_fallbacks self) \<noteq> []"
  shows "\<exists>label. run s =
           tryWithFallback (effectiveChain (Some f) (this_fallbacks self))
             (\<lambda>fb s. awaited (invoke self fb (method fb) s)) label s"
proof -
  from promiseOperation_shape [OF assms(1)] obtain label where
    "run s =
      (let fallbackList = fallbackListOf (Some f) (this_fallbacks self)
       in if noFallbacks fallbackList then (Inl noFallbacksError, s)
          else tryWithFallback (fallbackEntries fallbackList)
                 (\<lambda>fb s. awaited (invoke self fb (method fb) s)) label s)"
    by (auto dest: spec [of _ s])
  with assms(2) show ?thesis
    by (intro exI [of _ label]) (simp add: Let_def noFallbacks_entries entries_effectiveChain)
qed

lemma promise_primary_failure_walks_chain:
  assumes "promiseOperation self (WithAdapter adapter model fallbacks) run method"
    and "awaited (invoke self (adapter, model) (method (adapter, model)) s) = (Inl e, s')"
    and "readMessage e = Inr msg"
    and "effectiveChain fallbacks (this_fallbacks self) \<noteq> []"
  shows "\<exists>label. run s =
           tryWithFallback (effectiveChain fallbacks (this_fallbacks self))
             (\<lambda>fb s. awaited (invoke self fb (method fb) s)) label s'"
proof -
  from promiseOperation_shape [OF assms(1)] obtain label where
    "run s =
      (let fallbackList = fallbackListOf fallbacks (this_fallbacks self)
       in case awaited (invoke self (adapter, model) (method (adapter, model)) s) of
            (Inr result, s') \<Rightarrow> (Inr result, s')
          | (Inl primaryError, s') \<Rightarrow>
              if noFallbacks fallbackList then (Inl primaryError, s')
              else
                (case readMessage primaryError of
                   Inl typeError \<Rightarrow> (Inl typeError, s')
                 | Inr text \<Rightarrow>
                     tryWithFallback (fallbackEntries fallbackList)
                       (\<lambda>fb s. awaited (invoke self fb (method fb) s))
                       (label @ '' (after primary failure)'') s'))"
    by (auto dest: spec [of _ s])
  with assms(2,3,4) show ?thesis
    by (intro exI [of _ "label @ '' (after primary failure)''"])
       (simp add: Let_def noFallbacks_entries entries_effectiveChain)
qed

lemma generateTextStream_fallbackOnly_walks_chain:
  assumes "effectiveChain (Some f) (this_fallbacks self) \<noteq> []"
  shows "generateTextStream self (FallbackOnly f) rest s =
           tryStreamWithFallback noChunkError (effectiveChain (Some f) (this_fallbacks self))
             (\<lambda>fallback. invoke self fallback
                (\<lambda>a. ad_generateTextStream a (snd fallback) rest))
             ''generateTextStream'' s"
  using assms unfolding generateTextStream_def Let_def chain_norm by simp

lemma generateTextStream_primary_failure_walks_chain:
  assumes "invoke self (adapter, model) (\<lambda>a. ad_generateTextStream a model rest) s
             = (attempt, s')"
    and "attempt = Inl e \<and> forwarded = [] \<or> attempt = Inr (forwarded, Some e)"
    and "readMessage e = Inr msg"
    and "effectiveChain fallbacks (this_fallbacks self) \<noteq> []"
  shows "generateTextStream self (WithAdapter adapter model fallbacks) rest s =
           tryStreamWithFallback_loop noChunkError [(adapter, model, asError e)]
             (effectiveChain fallbacks (this_fallbacks self))
             (\<lambda>fallback. invoke self fallback
                (\<lambda>a. ad_generateTextStream a (snd fallback) rest))
             ''generateTextStream'' (s'\<lparr>yielded := yielded s' @ forwarded\<rparr>)"
  using assms unfolding generateTextStream_def Let_def chain_norm by auto

lemma chatStream_fallbackOnly_walks_chain:
  assumes "toolObjectsOf self tools = Inr toolObjects"
    and "\<not> hasToolExecutorsOf toolObjects"
    and "effectiveChain (Some f) (this_fallbacks self) \<noteq> []"
  shows "chatStream json self (FallbackOnly f) tools rest s =
           tryStreamWithFallback chunkError (effectiveChain (Some f) (this_fallbacks self))
             (\<lambda>fallback. invoke self fallback
                (\<lambda>a. ad_chatStream a (chatRequest rest (snd fallback) toolObjects True)))
             ''streamChat'' s"
  using assms unfolding chatStream_def chatStream_body_def Let_def chain_norm by simp

lemma chatStream_primary_failure_walks_chain:
  assumes "toolObjectsOf self tools = Inr toolObjects"
    and "\<not> hasToolExecutorsOf toolObjects"
    and "getAdapter self adapter = Inr adapterInstance"
    and "ad_chatStream adapterInstance (chatRequest rest model toolObjects True) (world s)
           = (iterator, w')"
    and "consumeAttempt chunkError iterator = (forwarded, Some e)"
    and "readMessage e = Inr msg"
    and "effectiveChain fallbacks (this_fallbacks self) \<noteq> []"
  shows "chatStream json self (WithAdapter adapter model fallbacks) tools rest s =
           tryStreamWithFallback_loop chunkError [(adapter, model, asError e)]
             (effectiveChain fallbacks (this_fallbacks self))
             (\<lambda>fallback. invoke self fallback
                (\<lambda>a. ad_chatStream a (chatRequest rest (snd fallback) toolObjects True)))
             ''streamChat''
             (s\<lparr>world := w', calls := calls s @ [(adapter, model)],
                yielded := yielded s @ forwarded\<rparr>)"
  using assms
  unfolding chatStream_def chatStream_body_def chatStream_plain_def Let_def chain_norm
  by simp

text \<open>
  Claim C4. The list every operation works with is the effective chain of the
  specification: the per-call list when it has an entry, the configured list otherwise.
  Each of the six operations depends on the per-call list and on the configured list through
  this chain alone, and in fallback-only mode an empty chain makes each of them raise the
  no-fallbacks error in the state it was called in, so before any backend call. The chain
  is what the operations walk: in fallback-only mode with a chain that is not empty, each
  promise-mode operation is \<^verbatim>\<open>tryWithFallback\<close> over the chain,
  \<^verbatim>\<open>generateTextStream\<close> and \<^verbatim>\<open>chatStream\<close> (no tool with an executor) are
  \<^verbatim>\<open>tryStreamWithFallback\<close> over it; with a primary that has failed with a readable
  message, each operation goes on with the walk over the chain from the state the primary
  attempt has left.
\<close>

theorem effective_chain_decides:
  "fallbackEntries (fallbackListOf perCall configured) = effectiveChain perCall configured
   \<and> noFallbacks (fallbackListOf perCall configured) = (effectiveChain perCall configured = [])
   \<and> (primaryOf o1 = primaryOf o2
        \<and> effectiveChain (perCallFallbacks o1) d1 = effectiveChain (perCallFallbacks o2) d2 \<longrightarrow>
          chatPromise (self\<lparr>this_fallbacks := d1\<rparr>) o1 tools chatRest s
            = chatPromise (self\<lparr>this_fallbacks := d2\<rparr>) o2 tools chatRest s
        \<and> generateText (self\<lparr>this_fallbacks := d1\<rparr>) o1 rest s
            = generateText (self\<lparr>this_fallbacks := d2\<rparr>) o2 rest s
        \<and> summarize (self\<lparr>this_fallbacks := d1\<rparr>) o1 rest s
            = summarize (self\<lparr>this_fallbacks := d2\<rparr>) o2 rest s
        \<and> embed (self\<lparr>this_fallbacks := d1\<rparr>) o1 rest s
            = embed (self\<lparr>this_fallbacks := d2\<rparr>) o2 rest s
        \<and> chatStream json (self\<lparr>this_fallbacks := d1\<rparr>) o1 tools chatRest cs
            = chatStream json (self\<lparr>this_fallbacks := d2\<rparr>) o2 tools chatRest cs
        \<and> generateTextStream (self\<lparr>this_fallbacks := d1\<rparr>) o1 rest ts
            = generateTextStream (self\<lparr>this_fallbacks := d2\<rparr>) o2 rest ts)
   \<and> (effectiveChain (Some f) (this_fallbacks self) = [] \<longrightarrow>
          chatPromise self (FallbackOnly f) tools chatRest s = (Inl noFallbacksError, s)
        \<and> generateText self (FallbackOnly f) rest s = (Inl noFallbacksError, s)
        \<and> summarize self (FallbackOnly f) rest s = (Inl noFallbacksError, s)
        \<and> embed self (FallbackOnly f) rest s = (Inl noFallbacksError, s)
        \<and> chatStream json self (FallbackOnly f) tools chatRest cs = (Inl noFallbacksError, cs)
        \<and> generateTextStream self (FallbackOnly f) rest ts = (Inl noFallbacksError, ts))
   \<and> (promiseOperation self (FallbackOnly f) run backendOperation
        \<and> effectiveChain (Some f) (this_fallbacks self) \<noteq> [] \<longrightarrow>
          (\<exists>label. run s =
             tryWithFallback (effectiveChain (Some f) (this_fallbacks self))
               (\<lambda>fb s. awaited (invoke self fb (backendOperation fb) s)) label s))
   \<and> (promiseOperation self (WithAdapter adapter model fallbacks) run' backendOperation'
        \<and> awaited (invoke self (adapter, model) (backendOperation' (adapter, model)) s)
            = (Inl e, s')
        \<and> readMessage e = Inr msg
        \<and> effectiveChain fallbacks (this_fallbacks self) \<noteq> [] \<longrightarrow>
          (\<exists>label. run' s =
             tryWithFallback (effectiveChain fallbacks (this_fallbacks self))
               (\<lambda>fb s. awaited (invoke self fb (backendOperation' fb) s)) label s'))
   \<and> (effectiveChain (Some f) (this_fallbacks self) \<noteq> [] \<longrightarrow>
          generateTextStream self (FallbackOnly f) rest ts =
            tryStreamWithFallback noChunkError (effectiveChain (Some f) (this_fallbacks self))
              (\<lambda>fallback. invoke self fallback
                 (\<lambda>a. ad_generateTextStream a (snd fallback) rest))
              ''generateTextStream'' ts)
   \<and> (invoke self (adapter, model) (\<lambda>a. ad_generateTextStream a model rest) ts
          = (textAttempt, ts')
        \<and> (textAttempt = Inl te \<and> textForwarded = []
             \<or> textAttempt = Inr (textForwarded, Some te))
        \<and> readMessage te = Inr tmsg
        \<and> effectiveChain fallbacks (this_fallbacks self) \<noteq> [] \<longrightarrow>
          generateTextStream self (WithAdapter adapter model fallbacks) rest ts =
            tryStreamWithFallback_loop noChunkError [(adapter, model, asError te)]
              (effectiveChain fallbacks (this_fallbacks self))
              (\<lambda>fallback. invoke self fallback
                 (\<lambda>a. ad_generateTextStream a (snd fallback) rest))
              ''generateTextStream'' (ts'\<lparr>yielded := yielded ts' @ textForwarded\<rparr>))
   \<and> (toolObjectsOf self tools = Inr toolObjects \<and> \<not> hasToolExecutorsOf toolObjects
        \<and> effectiveChain (Some f) (this_fallbacks self) \<noteq> [] \<longrightarrow>
          chatStream json self (FallbackOnly f) tools chatRest cs =
            tryStreamWithFallback chunkError (effectiveChain (Some f) (this_fallbacks self))
              (\<lambda>fallback. invoke self fallback
                 (\<lambda>a. ad_chatStream a (chatRequest chatRest (snd fallback) toolObjects True)))
              ''streamChat'' cs)
   \<and> (toolObjectsOf self tools = Inr toolObjects \<and> \<not> hasToolExecutorsOf toolObjects
        \<and> getAdapter self adapter = Inr adapterInstance
        \<and> ad_chatStream adapterInstance (chatRequest chatRest model toolObjects True) (world cs)
            = (iterator, w')
        \<and> consumeAttempt chunkError iterator = (forwarded, Some ce)
        \<and> readMessage ce = Inr cmsg
        \<and> effectiveChain fallbacks (this_fallbacks self) \<noteq> [] \<longrightarrow>
          chatStream json self (WithAdapter adapter model fallbacks) tools chatRest cs =
            tryStreamWithFallback_loop chunkError [(adapter, model, asError ce)]
              (effectiveChain fallbacks (this_fallbacks self))
              (\<lambda>fallback. invoke self fallback
                 (\<lambda>a. ad_chatStream a (chatRequest chatRest (snd fallback) toolObjects True)))
              ''streamChat''
              (cs\<lparr>world := w', calls := calls cs @ [(adapter, model)],
                  yielded := yielded cs @ forwarded\<rparr>))"
proof (intro conjI impI)
  show "fallbackEntries (fallbackListOf perCall configured) = effectiveChain perCall configured"
    by (rule entries_effectiveChain)
  show "noFallbacks (fallbackListOf perCall configured) = (effectiveChain perCall configured = [])"
    by (simp add: noFallbacks_entries entries_effectiveChain)
next
  assume same: "primaryOf o1 = primaryOf o2
    \<and> effectiveChain (perCallFallbacks o1) d1 = effectiveChain (perCallFallbacks o2) d2"
  then have p: "primaryOf o1 = primaryOf o2"
    and c: "effectiveChain (perCallFallbacks o1) d1 = effectiveChain (perCallFallbacks o2) d2"
    by simp_all
  show "chatPromise (self\<lparr>this_fallbacks := d1\<rparr>) o1 tools chatRest s
            = chatPromise (self\<lparr>this_fallbacks := d2\<rparr>) o2 tools chatRest s"
    by (rule chatPromise_chain [OF p c])
  show "generateText (self\<lparr>this_fallbacks := d1\<rparr>) o1 rest s
            = generateText (self\<lparr>this_fallbacks := d2\<rparr>) o2 rest s"
    by (rule generateText_chain [OF p c])
  show "summarize (self\<lparr>this_fallbacks := d1\<rparr>) o1 rest s
            = summarize (self\<lparr>this_fallbacks := d2\<rparr>) o2 rest s"
    by (rule summarize_chain [OF p c])
  show "embed (self\<lparr>this_fallbacks := d1\<rparr>) o1 rest s
            = embed (self\<lparr>this_fallbacks := d2\<rparr>) o2 rest s"
    by (rule embed_chain [OF p c])
  show "chatStream json (self\<lparr>this_fallbacks := d1\<rparr>) o1 tools chatRest cs
            = chatStream json (self\<lparr>this_fallbacks := d2\<rparr>) o2 tools chatRest cs"
    by (rule chatStream_chain [OF p c])
  show "generateTextStream (self\<lparr>this_fallbacks := d1\<rparr>) o1 rest ts
            = generateTextStream (self\<lparr>this_fallbacks := d2\<rparr>) o2 rest ts"
    by (rule generateTextStream_chain [OF p c])
next
  assume empty: "effectiveChain (Some f) (this_fallbacks self) = []"
  show "chatPromise self (FallbackOnly f) tools chatRest s = (Inl noFallbacksError, s)"
    by (rule chatPromise_noFallbacks [OF empty])
  show "generateText self (FallbackOnly f) rest s = (Inl noFallbacksError, s)"
    by (rule generateText_noFallbacks [OF empty])
  show "summarize self (FallbackOnly f) rest s = (Inl noFallbacksError, s)"
    by (rule summarize_noFallbacks [OF empty])
  show "embed self (FallbackOnly f) rest s = (Inl noFallbacksError, s)"
    by (rule embed_noFallbacks [OF empty])
  show "chatStream json self (FallbackOnly f) tools chatRest cs = (Inl noFallbacksError, cs)"
    by (rule chatStream_noFallbacks [OF empty])
  show "generateTextStream self (FallbackOnly f) rest ts = (Inl noFallbacksError, ts)"
    by (rule generateTextStream_noFallbacks [OF empty])
next
  assume "promiseOperation self (FallbackOnly f) run backendOperation
        \<and> effectiveChain (Some f) (this_fallbacks self) \<noteq> []"
  then show "\<exists>label. run s =
             tryWithFallback (effectiveChain (Some f) (this_fallbacks self))
               (\<lambda>fb s. awaited (invoke self fb (backendOperation fb) s)) label s"
    by (auto intro: promise_fallbackOnly_walks_chain)
next
  assume "promiseOperation self (WithAdapter adapter model fallbacks) run' backendOperation'
        \<and> awaited (invoke self (adapter, model) (backendOperation' (adapter, model)) s)
            = (Inl e, s')
        \<and> readMessage e = Inr msg
        \<and> effectiveChain fallbacks (this_fallbacks self) \<noteq> []"
  then show "\<exists>label. run' s =
             tryWithFallback (effectiveChain fallbacks (this_fallbacks self))
               (\<lambda>fb s. awaited (invoke self fb (backendOperation' fb) s)) label s'"
    by (auto intro: promise_primary_failure_walks_chain)
next
  assume "effectiveChain (Some f) (this_fallbacks self) \<noteq> []"
  then show "generateTextStream self (FallbackOnly f) rest ts =
            tryStreamWithFallback noChunkError (effectiveChain (Some f) (this_fallbacks self))
              (\<lambda>fallback. invoke self fallback
                 (\<lambda>a. ad_generateTextStream a (snd fallback) rest))
              ''generateTextStream'' ts"
    by (rule generateTextStream_fallbackOnly_walks_chain)
next
  assume a: "invoke self (adapter, model) (\<lambda>a. ad_generateTextStream a model rest) ts
          = (textAttempt, ts')
        \<and> (textAttempt = Inl te \<and> textForwarded = []
             \<or> textAttempt = Inr (textForwarded, Some te))
        \<and> readMessage te = Inr tmsg
        \<and> effectiveChain fallbacks (this_fallbacks self) \<noteq> []"
  show "generateTextStream self (WithAdapter adapter model fallbacks) rest ts =
            tryStreamWithFallback_loop noChunkError [(adapter, model, asError te)]
              (effectiveChain fallbacks (this_fallbacks self))
              (\<lambda>fallback. invoke self fallback
                 (\<lambda>a. ad_generateTextStream a (snd fallback) rest))
              ''generateTextStream'' (ts'\<lparr>yielded := yielded ts' @ textForwarded\<rparr>)"
    by (rule generateTextStream_primary_failure_walks_chain
          [OF a [THEN conjunct1] a [THEN conjunct2, THEN conjunct1]
              a [THEN conjunct2, THEN conjunct2, THEN conjunct1]
              a [THEN conjunct2, THEN conjunct2, THEN conjunct2]])
next
  assume a: "toolObjectsOf self tools = Inr toolObjects \<and> \<not> hasToolExecutorsOf toolObjects
        \<and> effectiveChain (Some f) (this_fallbacks self) \<noteq> []"
  show "chatStream json self (FallbackOnly f) tools chatRest cs =
            tryStreamWithFallback chunkError (effectiveChain (Some f) (this_fallbacks self))
              (\<lambda>fallback. invoke self fallback
                 (\<lambda>a. ad_chatStream a (chatRequest chatRest (snd fallback) toolObjects True)))
              ''streamChat'' cs"
    by (rule chatStream_fallbackOnly_walks_chain
          [OF a [THEN conjunct1] a [THEN conjunct2, THEN conjunct1]
              a [THEN conjunct2, THEN conjunct2]])
next
  assume a: "toolObjectsOf self tools = Inr toolObjects \<and> \<not> hasToolExecutorsOf toolObjects
        \<and> getAdapter self adapter = Inr adapterInstance
        \<and> ad_chatStream adapterInstance (chatRequest chatRest model toolObjects True) (world cs)
            = (iterator, w')
        \<and> consumeAttempt chunkError iterator = (forwarded, Some ce)
        \<and> readMessage ce = Inr cmsg
        \<and> effectiveChain fallbacks (this_fallbacks self) \<noteq> []"
  show "chatStream json self (WithAdapter adapter model fallbacks) tools chatRest cs =
            tryStreamWithFallback_loop chunkError [(adapter, model, asError ce)]
              (effectiveChain fallbacks (this_fallbacks self))
              (\<lambda>fallback. invoke self fallback
                 (\<lambda>a. ad_chatStream a (chatRequest chatRest (snd fallback) toolObjects True)))
              ''streamChat''
              (cs\<lparr>world := w', calls := calls cs @ [(adapter, model)],
                  yielded := yielded cs @ forwarded\<rparr>)"
    by (rule chatStream_primary_failure_walks_chain
          [OF a [THEN conjunct1] a [THEN conjunct2, THEN conjunct1]
              a [THEN conjunct2, THEN conjunct2, THEN conjunct1]
              a [THEN conjunct2, THEN conjunct2, THEN conjunct2, THEN conjunct1]
              a [THEN conjunct2, THEN conjunct2, THEN conjunct2, THEN conjunct2, THEN conjunct1]
              a [THEN conjunct2, THEN conjunct2, THEN conjunct2, THEN conjunct2, THEN conjunct2,
                 THEN conjunct1]
              a [THEN conjunct2, THEN conjunct2, THEN conjunct2, THEN conjunct2, THEN conjunct2,
                 THEN conjunct2]])
qed

theorem effective_chain_decides_witness:
  "primaryOf (WithAdapter ''primary'' ''m0'' None)
     = primaryOf (WithAdapter ''primary'' ''m0'' (Some [(''good'', ''m2'')]))
   \<and> effectiveChain (perCallFallbacks (WithAdapter ''primary'' ''m0'' None))
         (Some [(''good'', ''m2'')])
     = effectiveChain (perCallFallbacks (WithAdapter ''primary'' ''m0'' (Some [(''good'', ''m2'')])))
         None
   \<and> generateText (exampleAI\<lparr>this_fallbacks := Some [(''good'', ''m2'')]\<rparr>)
        (WithAdapter ''primary'' ''m0'' None) () (start :: (unit, chunk) exec)
     = generateText (exampleAI\<lparr>this_fallbacks := None\<rparr>)
        (WithAdapter ''primary'' ''m0'' (Some [(''good'', ''m2'')])) () start
   \<and> effectiveChain (Some []) (this_fallbacks exampleAI) = []
   \<and> chatStream exampleJSON
        exampleAI (FallbackOnly []) None
        exampleRest start
     = (Inl noFallbacksError, start)
   \<and> effectiveChain (Some [])
        (this_fallbacks (exampleAI\<lparr>this_fallbacks := Some [(''backup'', ''m1''), (''good'', ''m2'')]\<rparr>))
     = [(''backup'', ''m1''), (''good'', ''m2'')]
   \<and> chatStream exampleJSON
        (exampleAI\<lparr>this_fallbacks := Some [(''backup'', ''m1''), (''good'', ''m2'')]\<rparr>)
        (FallbackOnly []) None exampleRest start
     = (Inr (), start\<lparr>calls := [(''backup'', ''m1''), (''good'', ''m2'')],
                      yielded := [ContentChunk ''hi'' ''hi'', DoneChunk ''stop'']\<rparr>)"
proof -
  let ?ai = "exampleAI\<lparr>this_fallbacks := Some [(''backup'', ''m1''), (''good'', ''m2'')]\<rparr>"
  have p: "primaryOf (WithAdapter ''primary'' ''m0'' None)
     = primaryOf (WithAdapter ''primary'' ''m0'' (Some [(''good'', ''m2'')]))"
    by simp
  have c: "effectiveChain (perCallFallbacks (WithAdapter ''primary'' ''m0'' None))
         (Some [(''good'', ''m2'')])
     = effectiveChain (perCallFallbacks (WithAdapter ''primary'' ''m0'' (Some [(''good'', ''m2'')])))
         None"
    by (simp add: effectiveChain_def)
  have e: "effectiveChain (Some []) (this_fallbacks exampleAI) = []"
    by (simp add: effectiveChain_def exampleAI_def)
  have chain: "effectiveChain (Some []) (this_fallbacks ?ai)
      = [(''backup'', ''m1''), (''good'', ''m2'')]"
    by (simp add: effectiveChain_def)
  have tools: "toolObjectsOf ?ai None = Inr None"
    by (simp add: toolObjectsOf_def)
  have plain: "\<not> hasToolExecutorsOf (None :: (unit, unit) Tool list option)"
    by (simp add: hasToolExecutorsOf_def)
  have ne: "effectiveChain (Some []) (this_fallbacks ?ai) \<noteq> []"
    by (simp add: effectiveChain_def)
  have same: "generateText (exampleAI\<lparr>this_fallbacks := Some [(''good'', ''m2'')]\<rparr>)
        (WithAdapter ''primary'' ''m0'' None) () (start :: (unit, chunk) exec)
     = generateText (exampleAI\<lparr>this_fallbacks := None\<rparr>)
        (WithAdapter ''primary'' ''m0'' (Some [(''good'', ''m2'')])) () start"
    by (rule effective_chain_decides [where ?o1.0 = "WithAdapter ''primary'' ''m0'' None"
        and ?o2.0 = "WithAdapter ''primary'' ''m0'' (Some [(''good'', ''m2'')])"
        and ?d1.0 = "Some [(''good'', ''m2'')]" and ?d2.0 = None
        and self = exampleAI and rest = "()" and s = "start :: (unit, chunk) exec",
        THEN conjunct2, THEN conjunct2, THEN conjunct1, THEN mp, OF conjI [OF p c],
        THEN conjunct2, THEN conjunct1])
  have none: "chatStream exampleJSON exampleAI (FallbackOnly []) None exampleRest start
     = (Inl noFallbacksError, start)"
    by (rule effective_chain_decides [where f = "[]" and self = exampleAI and tools = None
        and cs = start and json = exampleJSON and chatRest = exampleRest,
        THEN conjunct2, THEN conjunct2, THEN conjunct2, THEN conjunct1, THEN mp, OF e,
        THEN conjunct2, THEN conjunct2, THEN conjunct2, THEN conjunct2, THEN conjunct1])
  have walk: "chatStream exampleJSON ?ai (FallbackOnly []) None exampleRest start
     = tryStreamWithFallback chunkError (effectiveChain (Some []) (this_fallbacks ?ai))
              (\<lambda>fallback. invoke ?ai fallback
                 (\<lambda>a. ad_chatStream a (chatRequest exampleRest (snd fallback) None True)))
              ''streamChat'' start"
    by (rule effective_chain_decides [where f = "[]" and self = ?ai and tools = None
        and toolObjects = None
        and cs = start and json = exampleJSON and chatRest = exampleRest,
        THEN conjunct2, THEN conjunct2, THEN conjunct2, THEN conjunct2, THEN conjunct2,
        THEN conjunct2, THEN conjunct2, THEN conjunct2, THEN conjunct1, THEN mp,
        OF conjI [OF tools conjI [OF plain ne]]])
  have run: "tryStreamWithFallback chunkError [(''backup'', ''m1''), (''good'', ''m2'')]
              (\<lambda>fallback. invoke ?ai fallback
                 (\<lambda>a. ad_chatStream a (chatRequest exampleRest (snd fallback) None True)))
              ''streamChat'' (start :: (unit, chunk) exec)
     = (Inr (), start\<lparr>calls := [(''backup'', ''m1''), (''good'', ''m2'')],
                      yielded := [ContentChunk ''hi'' ''hi'', DoneChunk ''stop'']\<rparr>)"
    by (simp add: tryStreamWithFallback_def invoke_def getAdapter_def exampleAI_def
          constAdapter_def consumeAttempt_def chunkError_def readMessage_def start_def)
  show ?thesis
    using p c e chain same none walk run by simp
qed


section \<open>Streaming chat: an error chunk fails the attempt\<close>

lemma forwardUntilError_stops:
  assumes "\<forall>c\<in>set pre. errorOf c = None" and "errorOf bad = Some m"
  shows "forwardUntilError errorOf (pre @ bad # post) = (pre, Some m)"
  using assms by (induction pre) simp_all

lemma forwardUntilError_clean:
  "\<forall>c\<in>set (fst (forwardUntilError errorOf cs)). errorOf c = None"
  by (induction cs) (auto split: option.splits prod.splits)

lemma consumeAttempt_error_chunk:
  assumes "\<forall>c\<in>set pre. chunkError c = None"
  shows "consumeAttempt chunkError (pre @ ErrorChunk m # post, raised)
       = (pre, Some (JsError (if m = [] then ''Unknown error'' else m)))"
proof -
  have "chunkError (ErrorChunk m) = Some m" by (simp add: chunkError_def)
  from forwardUntilError_stops [OF assms this, of post]
  show ?thesis by (simp add: consumeAttempt_def)
qed

lemma consumeAttempt_clean:
  "\<forall>c\<in>set (fst (consumeAttempt errorOf iterator)). errorOf c = None"
  using forwardUntilError_clean [of errorOf "fst iterator"]
  by (auto simp: consumeAttempt_def split: prod.splits option.splits)

lemma invoke_yielded: "yielded (snd (invoke self fb f s)) = yielded s"
  by (simp add: invoke_def split: sum.splits prod.splits)

lemma stream_loop_clean:
  assumes "\<And>fb s. yielded (snd (operation fb s)) = yielded s"
  shows "\<exists>ys. yielded (snd (tryStreamWithFallback_loop errorOf errs fbs operation label s))
                = yielded s @ ys
              \<and> (\<forall>c\<in>set ys. errorOf c = None)"
proof (induction fbs arbitrary: errs s)
  case Nil
  show ?case by simp
next
  case (Cons fb rest)
  obtain res s1 where op: "operation fb s = (res, s1)" by (cases "operation fb s")
  have y1: "yielded s1 = yielded s" using assms [of fb s] op by simp
  show ?case
  proof (cases res)
    case failed: (Inl e)
    show ?thesis
    proof (cases "readMessage e")
      case (Inl typeError)
      then show ?thesis using op failed y1 by simp
    next
      case (Inr msg)
      from Cons.IH [of "errs @ [(fst fb, snd fb, asError e)]" s1] show ?thesis
        using op failed Inr y1 by simp
    qed
  next
    case opened: (Inr iterator)
    obtain forwarded failure where ca: "consumeAttempt errorOf iterator = (forwarded, failure)"
      by (cases "consumeAttempt errorOf iterator")
    have clean: "\<forall>c\<in>set forwarded. errorOf c = None"
      using consumeAttempt_clean [of errorOf iterator] ca by simp
    show ?thesis
    proof (cases failure)
      case None
      then show ?thesis using op opened ca y1 clean by simp
    next
      case (Some e)
      show ?thesis
      proof (cases "readMessage e")
        case (Inl typeError)
        then show ?thesis using op opened ca Some y1 clean by simp
      next
        case (Inr msg)
        from Cons.IH [of "errs @ [(fst fb, snd fb, asError e)]"
            "s1\<lparr>yielded := yielded s1 @ forwarded\<rparr>"]
        obtain ys where
          "yielded (snd (tryStreamWithFallback_loop errorOf
              (errs @ [(fst fb, snd fb, asError e)]) rest
              operation label (s1\<lparr>yielded := yielded s1 @ forwarded\<rparr>)))
            = yielded s @ forwarded @ ys" "\<forall>c\<in>set ys. errorOf c = None"
          using y1 by auto
        then show ?thesis
          using op opened ca Some Inr clean
          by (intro exI [of _ "forwarded @ ys"]) auto
      qed
    qed
  qed
qed

lemma chatStream_plain_clean:
  "\<exists>ys. yielded (snd (chatStream_plain self a adapterToUse modelToUse fl toolObjects rest s))
           = yielded s @ ys \<and> (\<forall>c\<in>set ys. chunkError c = None)"
proof -
  let ?req = "chatRequest rest modelToUse toolObjects True"
  let ?op = "\<lambda>fallback. invoke self fallback
               (\<lambda>a. ad_chatStream a (chatRequest rest (snd fallback) toolObjects True))"
  obtain iterator w' where call: "ad_chatStream a ?req (world s) = (iterator, w')"
    by (cases "ad_chatStream a ?req (world s)")
  obtain forwarded failure where ca: "consumeAttempt chunkError iterator = (forwarded, failure)"
    by (cases "consumeAttempt chunkError iterator")
  have clean: "\<forall>c\<in>set forwarded. chunkError c = None"
    using consumeAttempt_clean [of chunkError iterator] ca by simp
  let ?s2 = "s\<lparr>world := w', calls := calls s @ [(adapterToUse, modelToUse)],
               yielded := yielded s @ forwarded\<rparr>"
  show ?thesis
  proof (cases failure)
    case None
    then show ?thesis
      using call ca clean by (simp add: chatStream_plain_def)
  next
    case (Some e)
    from stream_loop_clean [of ?op chunkError "[(adapterToUse, modelToUse, asError e)]"
        "fallbackEntries fl" "''streamChat''" ?s2, OF invoke_yielded]
    obtain ys where ys:
      "yielded (snd (tryStreamWithFallback_loop chunkError [(adapterToUse, modelToUse, asError e)]
          (fallbackEntries fl) ?op ''streamChat'' ?s2)) = yielded s @ forwarded @ ys"
      "\<forall>c\<in>set ys. chunkError c = None" by auto
    show ?thesis
    proof (cases "noFallbacks fl \<or> isl (readMessage e)")
      case True
      then show ?thesis
        using call ca Some clean
        by (cases "readMessage e") (auto simp: chatStream_plain_def Let_def)
    next
      case False
      then obtain msg where "readMessage e = Inr msg" by (cases "readMessage e") auto
      with False show ?thesis
        using call ca Some clean ys
        by (intro exI [of _ "forwarded @ ys"]) (auto simp: chatStream_plain_def Let_def)
    qed
  qed
qed

lemma chatStream_without_executors_clean:
  assumes tools: "toolObjectsOf self tools = Inr toolObjects"
    and plain: "\<not> hasToolExecutorsOf toolObjects"
  shows "\<exists>ys. yielded (snd (chatStream json self options tools restOptions s)) = yielded s @ ys
              \<and> (\<forall>c\<in>set ys. chunkError c = None)"
proof -
  let ?op = "\<lambda>fallback. invoke self fallback
               (\<lambda>a. ad_chatStream a (chatRequest restOptions (snd fallback) toolObjects True))"
  have body: "\<exists>ys. yielded (snd (chatStream_body json self b a m fl tools restOptions s))
                 = yielded s @ ys \<and> (\<forall>c\<in>set ys. chunkError c = None)" for b a m fl
  proof (cases b)
    case True
    from stream_loop_clean [of ?op chunkError "[]" "fallbackEntries fl" "''streamChat''" s,
        OF invoke_yielded]
    show ?thesis
      using True tools plain by (simp add: chatStream_body_def tryStreamWithFallback_def)
  next
    case False
    show ?thesis
    proof (cases "getAdapter self a")
      case (Inl e)
      then show ?thesis using False tools plain by (simp add: chatStream_body_def)
    next
      case (Inr adapterInstance)
      from chatStream_plain_clean [of self adapterInstance a m fl toolObjects restOptions s]
      show ?thesis using False tools plain Inr by (simp add: chatStream_body_def)
    qed
  qed
  show ?thesis
  proof (cases options)
    case (WithAdapter adapter model fallbacks)
    from body show ?thesis by (simp add: WithAdapter chatStream_def)
  next
    case (FallbackOnly fallbacks)
    from body show ?thesis by (simp add: FallbackOnly chatStream_def Let_def)
  qed
qed

text \<open>
  Claim C5. Streaming chat whose tools, if any, have no executable function. An attempt,
  be it the primary's or a chain entry's, whose stream is some chunks free of error chunks,
  then an error chunk: the chunks before it are yielded in order, the error chunk is not,
  the attempt's failure is recorded with the chunk's message, and the walk goes on with the
  remaining chain entries (after a failed primary with an empty chain, the error is raised).
  In fallback-only mode the walk starts at the head of the chain. No error chunk is ever
  among the chunks the call yields.
\<close>

theorem stream_error_chunk_fails_attempt:
  assumes tools: "toolObjectsOf self tools = Inr toolObjects"
    and plain: "\<not> hasToolExecutorsOf toolObjects"
    and walk: "walk = (\<lambda>errors chain. tryStreamWithFallback_loop chunkError errors chain
        (\<lambda>fallback. invoke self fallback
           (\<lambda>a. ad_chatStream a (chatRequest restOptions (snd fallback) toolObjects True)))
        ''streamChat'')"
    and failure: "failure = JsError (if m = [] then ''Unknown error'' else m)"
  shows "(map_of (this_adapters self) (fst fb) = Some a
          \<and> ad_chatStream a (chatRequest restOptions (snd fb) toolObjects True) (world s)
              = ((pre @ ErrorChunk m # post, raised), w')
          \<and> (\<forall>c\<in>set pre. chunkError c = None) \<longrightarrow>
            walk errors (fb # chain) s
              = walk (errors @ [(fst fb, snd fb, failure)]) chain
                  (s\<lparr>world := w', calls := calls s @ [fb], yielded := yielded s @ pre\<rparr>))
       \<and> (map_of (this_adapters self) adapter = Some a
          \<and> ad_chatStream a (chatRequest restOptions model toolObjects True) (world s)
              = ((pre @ ErrorChunk m # post, raised), w')
          \<and> (\<forall>c\<in>set pre. chunkError c = None) \<longrightarrow>
            chatStream json self (WithAdapter adapter model fallbacks) tools restOptions s
              = (if noFallbacks (fallbackListOf fallbacks (this_fallbacks self))
                 then (Inl failure,
                       s\<lparr>world := w', calls := calls s @ [(adapter, model)],
                         yielded := yielded s @ pre\<rparr>)
                 else walk [(adapter, model, failure)]
                        (fallbackEntries (fallbackListOf fallbacks (this_fallbacks self)))
                        (s\<lparr>world := w', calls := calls s @ [(adapter, model)],
                           yielded := yielded s @ pre\<rparr>)))
       \<and> (\<not> noFallbacks (fallbackListOf (Some fallbackOnly) (this_fallbacks self)) \<longrightarrow>
            chatStream json self (FallbackOnly fallbackOnly) tools restOptions s
              = walk [] (fallbackEntries (fallbackListOf (Some fallbackOnly) (this_fallbacks self))) s)
       \<and> (\<exists>ys. yielded (snd (chatStream json self options tools restOptions s)) = yielded s @ ys
              \<and> (\<forall>c\<in>set ys. chunkError c = None))"
proof (intro conjI impI)
  assume h: "map_of (this_adapters self) (fst fb) = Some a
          \<and> ad_chatStream a (chatRequest restOptions (snd fb) toolObjects True) (world s)
              = ((pre @ ErrorChunk m # post, raised), w')
          \<and> (\<forall>c\<in>set pre. chunkError c = None)"
  then have reg: "map_of (this_adapters self) (fst fb) = Some a"
    and clean: "\<forall>c\<in>set pre. chunkError c = None" by simp_all
  show "walk errors (fb # chain) s
      = walk (errors @ [(fst fb, snd fb, failure)]) chain
          (s\<lparr>world := w', calls := calls s @ [fb], yielded := yielded s @ pre\<rparr>)"
    using h by (simp add: walk failure invoke_registered [OF reg]
        consumeAttempt_error_chunk [OF clean] readMessage_def asError_def)
next
  assume h: "map_of (this_adapters self) adapter = Some a
          \<and> ad_chatStream a (chatRequest restOptions model toolObjects True) (world s)
              = ((pre @ ErrorChunk m # post, raised), w')
          \<and> (\<forall>c\<in>set pre. chunkError c = None)"
  then have clean: "\<forall>c\<in>set pre. chunkError c = None" by simp
  show "chatStream json self (WithAdapter adapter model fallbacks) tools restOptions s
      = (if noFallbacks (fallbackListOf fallbacks (this_fallbacks self))
         then (Inl failure,
               s\<lparr>world := w', calls := calls s @ [(adapter, model)], yielded := yielded s @ pre\<rparr>)
         else walk [(adapter, model, failure)]
                (fallbackEntries (fallbackListOf fallbacks (this_fallbacks self)))
                (s\<lparr>world := w', calls := calls s @ [(adapter, model)],
                   yielded := yielded s @ pre\<rparr>))"
    using h tools plain
    by (simp add: chatStream_def chatStream_body_def chatStream_plain_def walk failure
        getAdapter_registered consumeAttempt_error_chunk [OF clean] readMessage_def
        asError_def)
next
  assume "\<not> noFallbacks (fallbackListOf (Some fallbackOnly) (this_fallbacks self))"
  then show "chatStream json self (FallbackOnly fallbackOnly) tools restOptions s
      = walk [] (fallbackEntries (fallbackListOf (Some fallbackOnly) (this_fallbacks self))) s"
    using tools plain
    by (simp add: chatStream_def chatStream_body_def Let_def walk tryStreamWithFallback_def)
next
  show "\<exists>ys. yielded (snd (chatStream json self options tools restOptions s)) = yielded s @ ys
              \<and> (\<forall>c\<in>set ys. chunkError c = None)"
    by (rule chatStream_without_executors_clean [OF tools plain])
qed

theorem stream_error_chunk_fails_attempt_witness:
  "chatStream exampleJSON exampleAI
     (WithAdapter ''primary'' ''m0'' (Some [(''backup'', ''m1''), (''good'', ''m2'')]))
     None exampleRest start
   = (Inr (),
      start\<lparr>calls := [(''primary'', ''m0''), (''backup'', ''m1''), (''good'', ''m2'')],
            yielded := [ContentChunk ''He'' ''He'', ContentChunk ''y'' ''Hey'',
                        ContentChunk ''hi'' ''hi'', DoneChunk ''stop'']\<rparr>)"
proof -
  let ?walk = "\<lambda>errors chain. tryStreamWithFallback_loop chunkError errors chain
        (\<lambda>fallback. invoke exampleAI fallback
           (\<lambda>a. ad_chatStream a (chatRequest exampleRest (snd fallback) None True)))
        ''streamChat''"
  let ?primary = "constAdapter (Inl (JsError ''boom''))
       ([ContentChunk ''He'' ''He'', ContentChunk ''y'' ''Hey'', ErrorChunk ''cut''], None)
       :: (unit, string, unit, unit) AIAdapter"
  let ?pre = "[ContentChunk ''He'' ''He'', ContentChunk ''y'' ''Hey'']"
  have tools: "toolObjectsOf exampleAI None = Inr None"
    by (simp add: toolObjectsOf_def)
  have plain: "\<not> hasToolExecutorsOf (None :: (unit, unit) Tool list option)"
    by (simp add: hasToolExecutorsOf_def)
  have attempt: "map_of (this_adapters exampleAI) ''primary'' = Some ?primary
      \<and> ad_chatStream ?primary (chatRequest exampleRest ''m0'' None True) (world start)
          = ((?pre @ ErrorChunk ''cut'' # [], None), ())
      \<and> (\<forall>c\<in>set ?pre. chunkError c = None)"
    by (simp add: exampleAI_def constAdapter_def chunkError_def)
  have chain: "\<not> noFallbacks (fallbackListOf (Some [(''backup'', ''m1''), (''good'', ''m2'')])
      (this_fallbacks exampleAI))"
    by (simp add: noFallbacks_def fallbackListOf_def)
  from stream_error_chunk_fails_attempt [OF tools plain refl refl,
      where adapter = "''primary''" and a = ?primary and json = exampleJSON
        and restOptions = exampleRest and model = "''m0''" and s = start and pre = ?pre
        and m = "''cut''" and post = "[]" and raised = None and w' = "()"
        and fallbacks = "Some [(''backup'', ''m1''), (''good'', ''m2'')]",
      THEN conjunct2, THEN conjunct1, THEN mp, OF attempt] chain
  have "chatStream exampleJSON exampleAI
     (WithAdapter ''primary'' ''m0'' (Some [(''backup'', ''m1''), (''good'', ''m2'')]))
     None exampleRest start
    = ?walk [(''primary'', ''m0'', JsError ''cut'')] [(''backup'', ''m1''), (''good'', ''m2'')]
        (start\<lparr>calls := [(''primary'', ''m0'')], yielded := ?pre\<rparr>)"
    by (simp add: fallbackEntries_def fallbackListOf_def start_def
          del: tryStreamWithFallback_loop.simps)
  also have "\<dots> = (Inr (),
      start\<lparr>calls := [(''primary'', ''m0''), (''backup'', ''m1''), (''good'', ''m2'')],
            yielded := [ContentChunk ''He'' ''He'', ContentChunk ''y'' ''Hey'',
                        ContentChunk ''hi'' ''hi'', DoneChunk ''stop'']\<rparr>)"
    by (simp add: invoke_def getAdapter_def exampleAI_def constAdapter_def consumeAttempt_def
        chunkError_def start_def readMessage_def asError_def)
  finally show ?thesis .
qed


section \<open>The finalized tool calls of a round\<close>

lemma remdups_drop_later:
  "x \<in> set bs \<Longrightarrow> remdups (as @ x # bs) = remdups (as @ bs)"
  by (induction as) auto

lemma firstSeen_distinct: "distinct ks \<Longrightarrow> firstSeen ks = ks"
  by (simp add: firstSeen_def distinct_remdups_id)

lemma firstSeen_known: "x \<in> set ks \<Longrightarrow> firstSeen (ks @ x # xs) = firstSeen (ks @ xs)"
  by (simp add: firstSeen_def remdups_drop_later)

lemma keys_accumulate:
  "map fst (accumulate m c) =
     (case c of
        ToolCallChunk index callId name arguments \<Rightarrow>
          if index \<in> set (map fst m) then map fst m else map fst m @ [index]
      | _ \<Rightarrow> map fst m)"
  by (simp add: accumulate_def Let_def update_keys split: chunk.splits)

lemma distinct_accumulate:
  "distinct (map fst m) \<Longrightarrow> distinct (map fst (accumulate m c))"
  by (simp add: accumulate_def Let_def distinct_update split: chunk.splits)

lemma keys_foldl_accumulate:
  "distinct (map fst m) \<Longrightarrow>
   map fst (foldl accumulate m cs) = firstSeen (map fst m @ toolCallIndices cs)
   \<and> distinct (map fst (foldl accumulate m cs))"
proof (induction cs arbitrary: m)
  case Nil
  then show ?case by (simp add: firstSeen_distinct)
next
  case (Cons c cs)
  have d: "distinct (map fst (accumulate m c))"
    using Cons.prems by (rule distinct_accumulate)
  note step = Cons.IH [OF d]
  note IH = step [THEN conjunct1] and D = step [THEN conjunct2]
  show ?case
  proof (cases c)
    case (ToolCallChunk index callId name arguments)
    show ?thesis
    proof (cases "index \<in> set (map fst m)")
      case True
      then show ?thesis
        using IH D ToolCallChunk firstSeen_known [of index "map fst m" "toolCallIndices cs"]
        by (simp add: keys_accumulate)
    next
      case False
      then show ?thesis
        using IH D ToolCallChunk by (simp add: keys_accumulate)
    qed
  qed (use IH D in \<open>simp_all add: keys_accumulate\<close>)
qed

lemma observe_before_terminal:
  assumes "\<forall>c\<in>set cs. c \<noteq> DoneChunk ''tool_calls''"
  shows "foldl observe (m, toolCalls, has) cs = (foldl accumulate m cs, toolCalls, has)"
  using assms
proof (induction cs arbitrary: m)
  case Nil
  show ?case by simp
next
  case (Cons c cs)
  then have "observe (m, toolCalls, has) c = (accumulate m c, toolCalls, has)"
    by (cases c) (auto simp: observe_def Let_def)
  with Cons show ?case by simp
qed

lemma observe_terminal:
  "observe (m, toolCalls, has) (DoneChunk ''tool_calls'') = (m, toolCalls @ finalize m, True)"
  by (simp add: observe_def accumulate_def)

lemma toolCallIndices_append:
  "toolCallIndices (xs @ ys) = toolCallIndices xs @ toolCallIndices ys"
  by (induction xs rule: toolCallIndices.induct) simp_all

lemma fragmentsOf_append:
  "fragmentsOf i (xs @ ys) = fragmentsOf i xs @ fragmentsOf i ys"
  by (induction i xs rule: fragmentsOf.induct) simp_all

lemma fragmentsOf_empty: "(fragmentsOf i cs = []) = (i \<notin> set (toolCallIndices cs))"
  by (induction i cs rule: fragmentsOf.induct) auto

lemma firstSeen_snoc:
  "firstSeen (xs @ [x]) = (if x \<in> set xs then firstSeen xs else firstSeen xs @ [x])"
  by (simp add: firstSeen_def)

lemma set_firstSeen: "set (firstSeen xs) = set xs"
  by (simp add: firstSeen_def)

lemma distinct_firstSeen: "distinct (firstSeen xs)"
  by (simp add: firstSeen_def)

lemma map_of_tabulated:
  "map_of (map (\<lambda>i. (i, g i)) ks) k = (if k \<in> set ks then Some (g k) else None)"
  by (induction ks) auto

lemma update_tabulated:
  "distinct ks \<Longrightarrow>
   AList.update k v (map (\<lambda>i. (i, g i)) ks) =
     (if k \<in> set ks then map (\<lambda>i. (i, if i = k then v else g i)) ks
      else map (\<lambda>i. (i, g i)) ks @ [(k, v)])"
  by (induction ks) auto

lemma case_append_nonempty:
  "xs \<noteq> [] \<Longrightarrow>
     (case xs @ ys of [] \<Rightarrow> a | f # later \<Rightarrow> h f) = (case xs of [] \<Rightarrow> a | f # later \<Rightarrow> h f)"
  by (cases xs) simp_all

lemma lastNonEmpty_snoc:
  "lastNonEmpty (names @ [n]) = (if n \<noteq> [] then n else lastNonEmpty names)"
  by (simp add: lastNonEmpty_def)

lemma assembled_other:
  "index \<noteq> i \<Longrightarrow>
     assembled i (cs @ [ToolCallChunk index callId name arguments]) = assembled i cs"
  by (simp add: assembled_def fragmentsOf_append)

lemma assembled_first:
  "index \<notin> set (toolCallIndices cs) \<Longrightarrow>
     assembled index (cs @ [ToolCallChunk index callId name arguments])
       = ToolCall callId name arguments"
  using fragmentsOf_empty [of index cs]
  by (simp add: assembled_def fragmentsOf_append lastNonEmpty_def)

lemma assembled_again:
  "index \<in> set (toolCallIndices cs) \<Longrightarrow>
     assembled index (cs @ [ToolCallChunk index callId name arguments])
       = ToolCall (tc_id (assembled index cs))
           (if name \<noteq> [] then name else tc_name (assembled index cs))
           (tc_arguments (assembled index cs) @ arguments)"
  using fragmentsOf_empty [of index cs]
  by (simp add: assembled_def fragmentsOf_append lastNonEmpty_snoc case_append_nonempty)

lemma assembled_unrelated:
  "toolCallIndices [c] = [] \<Longrightarrow> assembled i (cs @ [c]) = assembled i cs"
  by (cases c) (simp_all add: assembled_def fragmentsOf_append)

text \<open>
  The accumulator after any chunks: one entry per stream index, in the order the indices
  first arrived, each holding what the fragments of its index amount to.
\<close>

lemma foldl_accumulate_assembled:
  "foldl accumulate [] cs =
     map (\<lambda>i. (i, PendingCall (tc_id (assembled i cs)) (tc_name (assembled i cs))
                    (tc_arguments (assembled i cs))))
       (firstSeen (toolCallIndices cs))"
proof (induction cs rule: rev_induct)
  case Nil
  show ?case by (simp add: firstSeen_def)
next
  case (snoc c cs)
  let ?P = "\<lambda>cs i. PendingCall (tc_id (assembled i cs)) (tc_name (assembled i cs))
                    (tc_arguments (assembled i cs))"
  have IH: "foldl accumulate [] cs = map (\<lambda>i. (i, ?P cs i)) (firstSeen (toolCallIndices cs))"
    by (rule snoc.IH)
  have step: "foldl accumulate [] (cs @ [c])
      = accumulate (map (\<lambda>i. (i, ?P cs i)) (firstSeen (toolCallIndices cs))) c"
    by (simp add: IH)
  show ?case
  proof (cases c)
    case (ToolCallChunk index callId name arguments)
    show ?thesis
    proof (cases "index \<in> set (toolCallIndices cs)")
      case True
      have after: "accumulate (map (\<lambda>i. (i, ?P cs i)) (firstSeen (toolCallIndices cs))) c
          = map (\<lambda>i. (i, if i = index
                then PendingCall (tc_id (assembled index cs))
                       (if name \<noteq> [] then name else tc_name (assembled index cs))
                       (tc_arguments (assembled index cs) @ arguments)
                else ?P cs i)) (firstSeen (toolCallIndices cs))"
        using True
        by (simp add: ToolCallChunk accumulate_def Let_def map_of_tabulated update_tabulated
              distinct_firstSeen set_firstSeen)
      have indices: "firstSeen (toolCallIndices (cs @ [c])) = firstSeen (toolCallIndices cs)"
        using True by (simp add: ToolCallChunk toolCallIndices_append firstSeen_snoc)
      have "map (\<lambda>i. (i, if i = index
                then PendingCall (tc_id (assembled index cs))
                       (if name \<noteq> [] then name else tc_name (assembled index cs))
                       (tc_arguments (assembled index cs) @ arguments)
                else ?P cs i)) (firstSeen (toolCallIndices cs))
          = map (\<lambda>i. (i, ?P (cs @ [c]) i)) (firstSeen (toolCallIndices cs))"
        using True by (intro map_cong refl)
          (auto simp: ToolCallChunk assembled_again assembled_other)
      then show ?thesis
        unfolding step after indices .
    next
      case False
      have after: "accumulate (map (\<lambda>i. (i, ?P cs i)) (firstSeen (toolCallIndices cs))) c
          = map (\<lambda>i. (i, ?P cs i)) (firstSeen (toolCallIndices cs))
              @ [(index, PendingCall callId name arguments)]"
        using False
        by (cases "name = []")
           (simp_all add: ToolCallChunk accumulate_def Let_def map_of_tabulated update_tabulated
              distinct_firstSeen set_firstSeen)
      have indices: "firstSeen (toolCallIndices (cs @ [c]))
          = firstSeen (toolCallIndices cs) @ [index]"
        using False by (simp add: ToolCallChunk toolCallIndices_append firstSeen_snoc)
      have same: "assembled x (cs @ [c]) = assembled x cs"
        if "x \<in> set (toolCallIndices cs)" for x
      proof -
        from that False have "index \<noteq> x" by auto
        then show ?thesis unfolding ToolCallChunk by (rule assembled_other)
      qed
      have earlier: "map (\<lambda>i. (i, ?P cs i)) (firstSeen (toolCallIndices cs))
          = map (\<lambda>i. (i, ?P (cs @ [c]) i)) (firstSeen (toolCallIndices cs))"
        by (intro map_cong refl) (simp add: same set_firstSeen)
      have new: "?P (cs @ [c]) index = PendingCall callId name arguments"
        using False by (simp add: ToolCallChunk assembled_first)
      show ?thesis
        unfolding step after indices using earlier new by simp
    qed
  next
    case (ContentChunk delta content)
    then show ?thesis
      unfolding step
      by (simp add: accumulate_def toolCallIndices_append assembled_unrelated)
  next
    case (DoneChunk finishReason)
    then show ?thesis
      unfolding step
      by (simp add: accumulate_def toolCallIndices_append assembled_unrelated)
  next
    case (ErrorChunk m)
    then show ?thesis
      unfolding step
      by (simp add: accumulate_def toolCallIndices_append assembled_unrelated)
  qed
qed

text \<open>
  Against claim C6 as stated: fragments for index 1 arrive before those for index 0, and
  the finalized list has the call of index 1 first. A \<^verbatim>\<open>Map\<close> is visited in the order
  its keys were first set; nothing sorts it.
\<close>

theorem finalized_in_arrival_order_not_ascending:
  "fst (snd (foldl observe ([], [], False)
       [ToolCallChunk 1 ''call_b'' ''second'' ''{}'',
        ToolCallChunk 0 ''call_a'' ''first'' ''{}'',
        DoneChunk ''tool_calls'']))
     = [ToolCall ''call_b'' ''second'' ''{}'', ToolCall ''call_a'' ''first'' ''{}'']
   \<and> map fst (fst (foldl observe ([], [], False)
       [ToolCallChunk 1 ''call_b'' ''second'' ''{}'',
        ToolCallChunk 0 ''call_a'' ''first'' ''{}'',
        DoneChunk ''tool_calls''])) = [1, 0]
   \<and> \<not> sorted (map fst (fst (foldl observe ([], [], False)
       [ToolCallChunk 1 ''call_b'' ''second'' ''{}'',
        ToolCallChunk 0 ''call_a'' ''first'' ''{}'',
        DoneChunk ''tool_calls''])))"
  by (simp add: observe_def accumulate_def finalize_def)

text \<open>
  Claim C6, amended. When the terminal chunk of a round has finish reason
  \<^verbatim>\<open>tool_calls\<close> and is the only such chunk of the round, the round is marked as
  tool-triggering and the finalized list has one tool call per stream index that occurred,
  listed in the order in which the indices first arrived (ascending exactly when they first
  arrive in ascending order). The call listed for an index is what the fragments of that
  index amount to: the identifier of its first fragment, its last function name that is not
  empty, its argument texts concatenated.
\<close>

theorem finalized_in_first_arrival_order:
  assumes "\<forall>c\<in>set pre. c \<noteq> DoneChunk ''tool_calls''"
    and "foldl observe ([], [], False) (pre @ [DoneChunk ''tool_calls''])
           = (toolCallsMap, toolCalls, hasToolCalls)"
  shows "hasToolCalls
       \<and> toolCalls = finalize toolCallsMap
       \<and> map fst toolCallsMap = firstSeen (toolCallIndices pre)
       \<and> distinct (map fst toolCallsMap)
       \<and> set (map fst toolCallsMap) = set (toolCallIndices pre)
       \<and> length toolCalls = card (set (toolCallIndices pre))
       \<and> toolCalls = map (\<lambda>i. assembled i pre) (firstSeen (toolCallIndices pre))"
proof -
  have m: "toolCallsMap = foldl accumulate [] pre"
    and t: "toolCalls = finalize toolCallsMap" and h: hasToolCalls
    using assms(2) by (auto simp: observe_before_terminal [OF assms(1)] observe_terminal)
  have keys: "map fst (foldl accumulate [] pre) = firstSeen (map fst ([] :: (nat \<times> PendingCall) list) @ toolCallIndices pre)
      \<and> distinct (map fst (foldl accumulate [] pre))"
    by (rule keys_foldl_accumulate) simp
  have k: "map fst toolCallsMap = firstSeen (toolCallIndices pre)"
    using keys [THEN conjunct1] by (simp add: m)
  have d: "distinct (map fst toolCallsMap)"
    using keys [THEN conjunct2] by (simp add: m)
  have s: "set (map fst toolCallsMap) = set (toolCallIndices pre)"
    unfolding k by (simp add: firstSeen_def)
  have "length toolCalls = length (map fst toolCallsMap)"
    by (simp add: t finalize_def)
  also have "\<dots> = card (set (map fst toolCallsMap))"
    using distinct_card [OF d] by simp
  finally have l: "length toolCalls = card (set (toolCallIndices pre))"
    using s by simp
  have a: "toolCalls = map (\<lambda>i. assembled i pre) (firstSeen (toolCallIndices pre))"
    unfolding t m foldl_accumulate_assembled by (simp add: finalize_def comp_def)
  from h t k d s l a show ?thesis by blast
qed

theorem finalized_in_first_arrival_order_witness:
  "foldl observe ([], [], False)
        ([ToolCallChunk 1 ''call_b'' ''second'' ''{\"id\":'',
          ToolCallChunk 0 ''call_a'' ''first'' ''{}'',
          ToolCallChunk 1 [] [] ''\"7\"}''] @ [DoneChunk ''tool_calls''])
     = ([(1, PendingCall ''call_b'' ''second'' ''{\"id\":\"7\"}''),
         (0, PendingCall ''call_a'' ''first'' ''{}'')],
        [ToolCall ''call_b'' ''second'' ''{\"id\":\"7\"}'', ToolCall ''call_a'' ''first'' ''{}''],
        True)
   \<and> firstSeen (toolCallIndices
        [ToolCallChunk 1 ''call_b'' ''second'' ''{\"id\":'',
         ToolCallChunk 0 ''call_a'' ''first'' ''{}'',
         ToolCallChunk 1 [] [] ''\"7\"}'']) = [1, 0]
   \<and> map (\<lambda>i. assembled i
        [ToolCallChunk 1 ''call_b'' ''second'' ''{\"id\":'',
         ToolCallChunk 0 ''call_a'' ''first'' ''{}'',
         ToolCallChunk 1 [] [] ''\"7\"}'']) [1, 0]
     = [ToolCall ''call_b'' ''second'' ''{\"id\":\"7\"}'', ToolCall ''call_a'' ''first'' ''{}'']"
proof -
  let ?pre = "[ToolCallChunk 1 ''call_b'' ''second'' ''{\"id\":'',
              ToolCallChunk 0 ''call_a'' ''first'' ''{}'',
              ToolCallChunk 1 [] [] ''\"7\"}'']"
  let ?m = "[(1, PendingCall ''call_b'' ''second'' ''{\"id\":\"7\"}''),
         (0, PendingCall ''call_a'' ''first'' ''{}'')]"
  let ?calls = "[ToolCall ''call_b'' ''second'' ''{\"id\":\"7\"}'',
                 ToolCall ''call_a'' ''first'' ''{}'']"
  have clean: "\<forall>c\<in>set ?pre. c \<noteq> DoneChunk ''tool_calls''" by simp
  have run: "foldl observe ([], [], False) (?pre @ [DoneChunk ''tool_calls''])
     = (?m, ?calls, True)"
    by (simp add: observe_def accumulate_def finalize_def)
  note facts = finalized_in_first_arrival_order [OF clean run]
  have "map fst ?m = firstSeen (toolCallIndices ?pre)"
    by (rule facts [THEN conjunct2, THEN conjunct2, THEN conjunct1])
  then have order: "firstSeen (toolCallIndices ?pre) = [1, 0]" by simp
  have "?calls = map (\<lambda>i. assembled i ?pre) (firstSeen (toolCallIndices ?pre))"
    by (rule facts [THEN conjunct2, THEN conjunct2, THEN conjunct2, THEN conjunct2,
          THEN conjunct2, THEN conjunct2])
  then have "map (\<lambda>i. assembled i ?pre) [1, 0] = ?calls"
    unfolding order by (rule sym)
  with run order show ?thesis by blast
qed


section \<open>The tool-execution loop: rounds, tool failures, one backend\<close>

lemma readMessage_readable:
  "e \<noteq> JsNull \<Longrightarrow> e \<noteq> JsUndefined \<Longrightarrow> \<exists>msg. readMessage e = Inr msg"
  by (cases e) (simp_all add: readMessage_def)

lemma findTool_name: "findTool tools name = Some tool \<Longrightarrow> tool_name tool = name"
  by (auto simp: findTool_def find_Some_iff split: option.splits)


lemma executeTools_calls: "calls (snd (executeTools json tools tcs messages s)) = calls s"
  by (induction tcs arbitrary: messages s)
     (auto split: option.splits sum.splits prod.splits)

lemma executeTools_yielded:
  "\<exists>ys. yielded (snd (executeTools json tools tcs messages s)) = yielded s @ ys"
proof (induction tcs arbitrary: messages s)
  case Nil
  show ?case by simp
next
  case (Cons tc tcs)
  show ?case
  proof (cases "findTool tools (tc_name tc)")
    case None
    with Cons show ?thesis by simp
  next
    case (Some tool)
    show ?thesis
    proof (cases "tool_execute tool")
      case None
      with Some Cons show ?thesis by simp
    next
      case execute: (Some execute)
      show ?thesis
      proof (cases "JSON_parse json (tc_arguments tc)")
        case (Inl e)
        with Some execute Cons show ?thesis by simp
      next
        case (Inr args)
        obtain res w' where run: "execute args (world s) = (res, w')"
          by (cases "execute args (world s)")
        show ?thesis
        proof (cases res)
          case failed: (Inl e)
          show ?thesis
          proof (cases "readMessage e")
            case unreadable: (Inl typeError)
            then show ?thesis using Some execute Inr run failed by simp
          next
            case readable: (Inr msg)
            from Cons [of "messages @ [toolMessage (JSON_stringify_error json msg) tc]"
                "s\<lparr>world := w'\<rparr>"]
            show ?thesis using Some execute Inr run failed readable by simp
          qed
        next
          case ok: (Inr result)
          from Cons [of "messages @ [toolMessage result tc]"
              "s\<lparr>world := w', yielded := yielded s @
                 [ContentChunk [] (''[Tool '' @ tc_name tc @ '' executed]'')]\<rparr>"]
          show ?thesis using Some execute Inr run ok by auto
        qed
      qed
    qed
  qed
qed

lemma executeTools_messages:
  "fst (executeTools json tools tcs messages s) = Inr messages' \<Longrightarrow>
     \<exists>added. messages' = messages @ added"
proof (induction tcs arbitrary: messages s)
  case Nil
  then show ?case by simp
next
  case (Cons tc tcs)
  have grow: "\<exists>added. messages' = messages @ added"
    if "fst (executeTools json tools tcs (messages @ [m]) s') = Inr messages'" for m s'
    using Cons.IH [OF that] by auto
  show ?case
    using Cons.prems Cons.IH [of messages s] grow
    by (auto split: option.splits sum.splits prod.splits)
qed

lemma executeTools_readable:
  assumes "toolsRaiseReadable tools"
  shows "\<exists>messages'. fst (executeTools json tools tcs messages s) = Inr messages'"
proof (induction tcs arbitrary: messages s)
  case Nil
  show ?case by simp
next
  case (Cons tc tcs)
  show ?case
  proof (cases "findTool tools (tc_name tc)")
    case None
    with Cons show ?thesis by simp
  next
    case (Some tool)
    then have found: "findTool tools (tool_name tool) = Some tool"
      by (simp add: findTool_name)
    show ?thesis
    proof (cases "tool_execute tool")
      case None
      with Some Cons show ?thesis by simp
    next
      case execute: (Some execute)
      show ?thesis
      proof (cases "JSON_parse json (tc_arguments tc)")
        case (Inl e)
        with Some execute Cons show ?thesis by simp
      next
        case (Inr args)
        obtain res w' where run: "execute args (world s) = (res, w')"
          by (cases "execute args (world s)")
        show ?thesis
        proof (cases res)
          case failed: (Inl e)
          from assms found execute have "fst (execute args (world s)) \<noteq> Inl JsNull"
            and "fst (execute args (world s)) \<noteq> Inl JsUndefined"
            unfolding toolsRaiseReadable_def by blast+
          with run failed have "e \<noteq> JsNull" "e \<noteq> JsUndefined" by auto
          then obtain msg where readable: "readMessage e = Inr msg"
            using readMessage_readable by blast
          from Cons [of "messages @ [toolMessage (JSON_stringify_error json msg) tc]"
              "s\<lparr>world := w'\<rparr>"]
          show ?thesis using Some execute Inr run failed readable by simp
        next
          case ok: (Inr result)
          from Cons [of "messages @ [toolMessage result tc]"
              "s\<lparr>world := w', yielded := yielded s @
                 [ContentChunk [] (''[Tool '' @ tc_name tc @ '' executed]'')]\<rparr>"]
          show ?thesis using Some execute Inr run ok by auto
        qed
      qed
    qed
  qed
qed

lemma toolLoop_finished:
  "\<not> iteration < maxIterations \<Longrightarrow>
   toolLoop json a ad md rest tools maxIterations iteration messages s = (Inr (), s)"
  by (subst toolLoop.simps) simp

lemma toolLoop_round:
  assumes "iteration < maxIterations"
    and "ad_chatStream a (chatRequest (rest\<lparr>rest_messages := messages\<rparr>) md tools True) (world s)
           = ((chunks, raised), w')"
    and "s1 = s\<lparr>world := w', calls := calls s @ [(ad, md)], yielded := yielded s @ chunks\<rparr>"
  shows "toolLoop json a ad md rest tools maxIterations iteration messages s =
     (case raised of
        Some e \<Rightarrow> (Inl e, s1)
      | None \<Rightarrow>
          if \<not> toolTriggering chunks then (Inr (), s1)
          else
            (case executeTools json tools (fst (snd (foldl observe ([], [], False) chunks)))
                    (messages @ [Message ''assistant'' None
                       (Some (fst (snd (foldl observe ([], [], False) chunks)))) None None]) s1 of
               (Inl typeError, s2) \<Rightarrow> (Inl typeError, s2)
             | (Inr messages', s2) \<Rightarrow>
                 toolLoop json a ad md rest tools maxIterations (iteration + 1) messages' s2))"
  using assms
  by (subst toolLoop.simps)
     (auto simp: toolTriggering_def Let_def split: option.splits prod.splits sum.splits)

lemma toolLoop_trace:
  "\<exists>n ys. calls (snd (toolLoop json a ad md rest tools maxIterations iteration messages s))
             = calls s @ replicate n (ad, md)
         \<and> n \<le> nat (maxIterations - iteration)
         \<and> yielded (snd (toolLoop json a ad md rest tools maxIterations iteration messages s))
             = yielded s @ ys"
proof (induction "nat (maxIterations - iteration)" arbitrary: iteration messages s)
  case 0
  then have "\<not> iteration < maxIterations" by simp
  then show ?case
    by (intro exI [of _ 0] exI [of _ "[]"]) (simp add: toolLoop_finished)
next
  case (Suc k)
  then have lt: "iteration < maxIterations" and k: "k = nat (maxIterations - (iteration + 1))"
    by linarith+
  obtain chunks raised w' where call:
    "ad_chatStream a (chatRequest (rest\<lparr>rest_messages := messages\<rparr>) md tools True) (world s)
       = ((chunks, raised), w')"
    by (metis prod.collapse)
  define s1 where "s1 = s\<lparr>world := w', calls := calls s @ [(ad, md)],
                          yielded := yielded s @ chunks\<rparr>"
  note round = toolLoop_round [OF lt call s1_def, of json]
  show ?case
  proof (cases "raised = None \<and> toolTriggering chunks")
    case False
    then have "snd (toolLoop json a ad md rest tools maxIterations iteration messages s) = s1"
      using round by (auto split: option.splits)
    then show ?thesis
      using lt by (intro exI [of _ 1] exI [of _ chunks]) (simp add: s1_def)
  next
    case True
    define toolCalls where "toolCalls = fst (snd (foldl observe ([], [], False) chunks))"
    define msgs where
      "msgs = messages @ [Message ''assistant'' None (Some toolCalls) None None]"
    obtain outcome s2 where tools: "executeTools json tools toolCalls msgs s1 = (outcome, s2)"
      by (cases "executeTools json tools toolCalls msgs s1")
    have c2: "calls s2 = calls s @ [(ad, md)]"
      using executeTools_calls [of json tools toolCalls msgs s1] unfolding tools
      by (simp add: s1_def)
    obtain ys2 where y2: "yielded s2 = yielded s @ chunks @ ys2"
      using executeTools_yielded [of json tools toolCalls msgs s1] unfolding tools
      by (auto simp: s1_def)
    show ?thesis
    proof (cases outcome)
      case (Inl typeError)
      have "toolLoop json a ad md rest tools maxIterations iteration messages s
          = (Inl typeError, s2)"
        using round True tools Inl by (simp add: toolCalls_def msgs_def)
      then show ?thesis
        using lt c2 y2 by (intro exI [of _ 1] exI [of _ "chunks @ ys2"]) simp
    next
      case (Inr msgs')
      have next_round:
        "toolLoop json a ad md rest tools maxIterations iteration messages s
           = toolLoop json a ad md rest tools maxIterations (iteration + 1) msgs' s2"
        using round True tools Inr by (simp add: toolCalls_def msgs_def)
      from Suc.hyps(1) [OF k, of msgs' s2] obtain n ys where
        n1: "calls (snd (toolLoop json a ad md rest tools maxIterations (iteration + 1) msgs' s2))
           = calls s2 @ replicate n (ad, md)"
        and n2: "n \<le> nat (maxIterations - (iteration + 1))"
        and n3: "yielded (snd (toolLoop json a ad md rest tools maxIterations (iteration + 1) msgs' s2))
           = yielded s2 @ ys" by blast
      have "calls (snd (toolLoop json a ad md rest tools maxIterations iteration messages s))
          = calls s @ replicate (Suc n) (ad, md)"
        by (simp add: next_round n1 c2)
      moreover have "Suc n \<le> nat (maxIterations - iteration)"
        using n2 lt by linarith
      moreover have "yielded (snd (toolLoop json a ad md rest tools maxIterations iteration messages s))
          = yielded s @ (chunks @ ys2 @ ys)"
        by (simp add: next_round n3 y2)
      ultimately show ?thesis by blast
    qed
  qed
qed


lemma toolLoop_failure_from_backend:
  assumes "toolsRaiseReadable tools"
  shows "fst (toolLoop json a ad md rest tools maxIterations iteration messages s) = Inl e \<Longrightarrow>
   \<exists>req w. snd (fst (ad_chatStream a req w)) = Some e"
proof (induction "nat (maxIterations - iteration)" arbitrary: iteration messages s)
  case 0
  then have "\<not> iteration < maxIterations" by simp
  with 0 show ?case by (simp add: toolLoop_finished)
next
  case (Suc k)
  then have lt: "iteration < maxIterations" and k: "k = nat (maxIterations - (iteration + 1))"
    by linarith+
  obtain chunks raised w' where call:
    "ad_chatStream a (chatRequest (rest\<lparr>rest_messages := messages\<rparr>) md tools True) (world s)
       = ((chunks, raised), w')"
    by (metis prod.collapse)
  define s1 where "s1 = s\<lparr>world := w', calls := calls s @ [(ad, md)],
                          yielded := yielded s @ chunks\<rparr>"
  note round = toolLoop_round [OF lt call s1_def, of json]
  show ?case
  proof (cases raised)
    case (Some e')
    with round Suc.prems have "e' = e" by simp
    with Some call show ?thesis
      by (intro exI [of _ "chatRequest (rest\<lparr>rest_messages := messages\<rparr>) md tools True"]
            exI [of _ "world s"]) simp
  next
    case None
    show ?thesis
    proof (cases "toolTriggering chunks")
      case False
      with round None Suc.prems show ?thesis by simp
    next
      case True
      define toolCalls where "toolCalls = fst (snd (foldl observe ([], [], False) chunks))"
      define msgs where
        "msgs = messages @ [Message ''assistant'' None (Some toolCalls) None None]"
      obtain msgs' where "fst (executeTools json tools toolCalls msgs s1) = Inr msgs'"
        using executeTools_readable [OF assms] by blast
      then obtain s2 where tools: "executeTools json tools toolCalls msgs s1 = (Inr msgs', s2)"
        by (cases "executeTools json tools toolCalls msgs s1") auto
      have "toolLoop json a ad md rest tools maxIterations iteration messages s
         = toolLoop json a ad md rest tools maxIterations (iteration + 1) msgs' s2"
        using round None True tools by (simp add: toolCalls_def msgs_def)
      with Suc.prems Suc.hyps(1) [OF k, of msgs' s2] show ?thesis by simp
    qed
  qed
qed

lemma chatStream_tool_mode:
  assumes "toolObjectsOf self tools = Inr toolObjects"
    and "hasToolExecutorsOf toolObjects"
    and "initiallyChosen self options = Some (ad, md)"
    and "map_of (this_adapters self) ad = Some a"
  shows "chatStream json self options tools rest s
       = toolLoop json a ad md rest toolObjects (maxIterationsOf rest) 0 (rest_messages rest) s"
proof (cases options)
  case (WithAdapter adapter model fallbacks)
  with assms show ?thesis
    by (simp add: chatStream_def chatStream_body_def getAdapter_registered maxIterationsOf_def)
next
  case (FallbackOnly fallbacks)
  with assms(3) obtain others where
    "fallbackEntries (fallbackListOf (Some fallbacks) (this_fallbacks self)) = (ad, md) # others"
    by (auto split: list.splits)
  with assms FallbackOnly show ?thesis
    by (simp add: chatStream_def chatStream_body_def getAdapter_registered maxIterationsOf_def
          noFallbacks_def fallbackEntries_def split: option.splits)
qed

lemma toolLoop_round_yields:
  assumes "iteration < maxIterations"
    and "ad_chatStream a (chatRequest (rest\<lparr>rest_messages := messages\<rparr>) md tools True) (world s)
           = ((chunks, raised), w')"
  shows "\<exists>ys. yielded (snd (toolLoop json a ad md rest tools maxIterations iteration messages s))
              = yielded s @ chunks @ ys"
proof -
  define s1 where "s1 = s\<lparr>world := w', calls := calls s @ [(ad, md)],
                          yielded := yielded s @ chunks\<rparr>"
  note round = toolLoop_round [OF assms s1_def, of json]
  show ?thesis
  proof (cases "raised = None \<and> toolTriggering chunks")
    case False
    then have "snd (toolLoop json a ad md rest tools maxIterations iteration messages s) = s1"
      using round by (auto split: option.splits)
    then show ?thesis by (simp add: s1_def)
  next
    case True
    define toolCalls where "toolCalls = fst (snd (foldl observe ([], [], False) chunks))"
    define msgs where
      "msgs = messages @ [Message ''assistant'' None (Some toolCalls) None None]"
    obtain outcome s2 where tools: "executeTools json tools toolCalls msgs s1 = (outcome, s2)"
      by (cases "executeTools json tools toolCalls msgs s1")
    obtain ys2 where y2: "yielded s2 = yielded s @ chunks @ ys2"
      using executeTools_yielded [of json tools toolCalls msgs s1] unfolding tools
      by (auto simp: s1_def)
    show ?thesis
    proof (cases outcome)
      case (Inl typeError)
      have "toolLoop json a ad md rest tools maxIterations iteration messages s
          = (Inl typeError, s2)"
        using round True tools Inl by (simp add: toolCalls_def msgs_def)
      then show ?thesis
        using y2 by (intro exI [of _ ys2]) simp
    next
      case (Inr msgs')
      have next_round:
        "toolLoop json a ad md rest tools maxIterations iteration messages s
           = toolLoop json a ad md rest tools maxIterations (iteration + 1) msgs' s2"
        using round True tools Inr by (simp add: toolCalls_def msgs_def)
      obtain n ys where
        "yielded (snd (toolLoop json a ad md rest tools maxIterations (iteration + 1) msgs' s2))
           = yielded s2 @ ys"
        using toolLoop_trace [of json a ad md rest tools maxIterations "iteration + 1" msgs' s2]
        by blast
      then show ?thesis
        by (intro exI [of _ "ys2 @ ys"]) (simp add: next_round y2)
    qed
  qed
qed


lemma exampleToolAI_tools:
  "toolObjectsOf exampleToolAI (Some [''lookup'', ''broken''])
     = Inr (Some [lookupTool, brokenTool])"
  by (simp add: toolObjectsOf_def getTool_def exampleToolAI_def)

lemma exampleTools_executors: "hasToolExecutorsOf (Some [lookupTool, brokenTool])"
  by (simp add: hasToolExecutorsOf_def lookupTool_def)



text \<open>
  What holds of tool failures in general. A finalized tool call whose tool, found by
  function name, has an executable function: when its argument text does not parse, a tool
  message with the error payload of the \<^verbatim>\<open>SyntaxError\<close>'s message is appended; when the
  function raises a value whose \<^verbatim>\<open>.message\<close> can be read, a tool message with the error
  payload of that reading is appended; in both cases the remaining calls are processed. The
  conversation only ever grows. If no tool raises \<^verbatim>\<open>null\<close> or \<^verbatim>\<open>undefined\<close>, the tools
  of a round never end the call, and an error raised by the streaming call comes from a
  backend stream.
\<close>

lemma tool_failure_recorded_when_readable:
  "(findTool tools (tc_name toolCall) = Some tool \<and> tool_execute tool = Some execute
      \<and> JSON_parse json (tc_arguments toolCall) = Inl syntaxError \<longrightarrow>
        executeTools json tools (toolCall # toolCalls) messages s
          = executeTools json tools toolCalls
              (messages @ [Message ''tool''
                             (Some (JSON_stringify_error json (Some syntaxError))) None
                             (Some (tc_id toolCall)) (Some (tc_name toolCall))]) s)
   \<and> (findTool tools (tc_name toolCall) = Some tool \<and> tool_execute tool = Some execute
      \<and> JSON_parse json (tc_arguments toolCall) = Inr args
      \<and> execute args (world s) = (Inl e, w') \<and> readMessage e = Inr msg \<longrightarrow>
        executeTools json tools (toolCall # toolCalls) messages s
          = executeTools json tools toolCalls
              (messages @ [Message ''tool'' (Some (JSON_stringify_error json msg)) None
                             (Some (tc_id toolCall)) (Some (tc_name toolCall))])
              (s\<lparr>world := w'\<rparr>))
   \<and> (fst (executeTools json tools toolCalls messages s) = Inr messages' \<longrightarrow>
        (\<exists>added. messages' = messages @ added))
   \<and> (toolsRaiseReadable tools \<longrightarrow>
        (\<exists>after. fst (executeTools json tools toolCalls messages s) = Inr after))
   \<and> (iteration < maxIterations
      \<and> ad_chatStream a (chatRequest (rest\<lparr>rest_messages := messages\<rparr>) md tools True) (world s)
           = ((chunks, None), w')
      \<and> toolTriggering chunks
      \<and> finalized = fst (snd (foldl observe ([], [], False) chunks))
      \<and> executeTools json tools finalized
           (messages @ [Message ''assistant'' None (Some finalized) None None])
           (s\<lparr>world := w', calls := calls s @ [(ad, md)], yielded := yielded s @ chunks\<rparr>)
           = (Inr messages', s2) \<longrightarrow>
        toolLoop json a ad md rest tools maxIterations iteration messages s
          = toolLoop json a ad md rest tools maxIterations (iteration + 1) messages' s2)
   \<and> (toolsRaiseReadable tools
      \<and> toolObjectsOf self names = Inr tools \<and> hasToolExecutorsOf tools
      \<and> initiallyChosen self options = Some (ad, md)
      \<and> map_of (this_adapters self) ad = Some a
      \<and> fst (chatStream json self options names rest s) = Inl failure \<longrightarrow>
        (\<exists>req w. snd (fst (ad_chatStream a req w)) = Some failure))"
proof (intro conjI impI)
  assume "findTool tools (tc_name toolCall) = Some tool \<and> tool_execute tool = Some execute
      \<and> JSON_parse json (tc_arguments toolCall) = Inl syntaxError"
  then show "executeTools json tools (toolCall # toolCalls) messages s
          = executeTools json tools toolCalls
              (messages @ [Message ''tool''
                             (Some (JSON_stringify_error json (Some syntaxError))) None
                             (Some (tc_id toolCall)) (Some (tc_name toolCall))]) s"
    by (simp add: toolMessage_def)
next
  assume "findTool tools (tc_name toolCall) = Some tool \<and> tool_execute tool = Some execute
      \<and> JSON_parse json (tc_arguments toolCall) = Inr args
      \<and> execute args (world s) = (Inl e, w') \<and> readMessage e = Inr msg"
  then show "executeTools json tools (toolCall # toolCalls) messages s
          = executeTools json tools toolCalls
              (messages @ [Message ''tool'' (Some (JSON_stringify_error json msg)) None
                             (Some (tc_id toolCall)) (Some (tc_name toolCall))])
              (s\<lparr>world := w'\<rparr>)"
    by (simp add: toolMessage_def)
next
  assume "fst (executeTools json tools toolCalls messages s) = Inr messages'"
  then show "\<exists>added. messages' = messages @ added"
    by (rule executeTools_messages)
next
  assume "toolsRaiseReadable tools"
  then show "\<exists>after. fst (executeTools json tools toolCalls messages s) = Inr after"
    by (rule executeTools_readable)
next
  assume h: "iteration < maxIterations
      \<and> ad_chatStream a (chatRequest (rest\<lparr>rest_messages := messages\<rparr>) md tools True) (world s)
           = ((chunks, None), w')
      \<and> toolTriggering chunks
      \<and> finalized = fst (snd (foldl observe ([], [], False) chunks))
      \<and> executeTools json tools finalized
           (messages @ [Message ''assistant'' None (Some finalized) None None])
           (s\<lparr>world := w', calls := calls s @ [(ad, md)], yielded := yielded s @ chunks\<rparr>)
           = (Inr messages', s2)"
  then have lt: "iteration < maxIterations"
    and call: "ad_chatStream a (chatRequest (rest\<lparr>rest_messages := messages\<rparr>) md tools True)
        (world s) = ((chunks, None), w')"
    and trig: "toolTriggering chunks"
    and tools: "executeTools json tools (fst (snd (foldl observe ([], [], False) chunks)))
           (messages @ [Message ''assistant'' None
              (Some (fst (snd (foldl observe ([], [], False) chunks)))) None None])
           (s\<lparr>world := w', calls := calls s @ [(ad, md)], yielded := yielded s @ chunks\<rparr>)
           = (Inr messages', s2)" by auto
  show "toolLoop json a ad md rest tools maxIterations iteration messages s
          = toolLoop json a ad md rest tools maxIterations (iteration + 1) messages' s2"
    using toolLoop_round [OF lt call refl, where json = json and ad = ad] trig
    by (simp add: tools)
next
  assume h: "toolsRaiseReadable tools
      \<and> toolObjectsOf self names = Inr tools \<and> hasToolExecutorsOf tools
      \<and> initiallyChosen self options = Some (ad, md)
      \<and> map_of (this_adapters self) ad = Some a
      \<and> fst (chatStream json self options names rest s) = Inl failure"
  then have "chatStream json self options names rest s
      = toolLoop json a ad md rest tools (maxIterationsOf rest) 0 (rest_messages rest) s"
    by (intro chatStream_tool_mode) simp_all
  with h show "\<exists>req w. snd (fst (ad_chatStream a req w)) = Some failure"
    by (auto dest: toolLoop_failure_from_backend)
qed

lemma exampleSilentAI_tools:
  "toolObjectsOf exampleSilentAI (Some [''silent'']) = Inr (Some [silentTool])"
  by (simp add: toolObjectsOf_def getTool_def exampleSilentAI_def)

lemma silentTool_aborts:
  "executeTools exampleJSON (Some [silentTool]) [ToolCall ''call_3'' ''silent'' ''{}'']
     messages s
   = (Inl (typeErrorOn ''undefined''), s)"
  by (simp add: findTool_def silentTool_def exampleJSON_def readMessage_def)

text \<open>
  Claim C8. A tool that raises \<^verbatim>\<open>undefined\<close>: the \<^verbatim>\<open>catch\<close> block of the tool call
  evaluates \<^verbatim>\<open>error.message\<close>, which raises a \<^verbatim>\<open>TypeError\<close> outside of any
  \<^verbatim>\<open>try\<close>. No tool message is appended for the call; the streaming call ends with the
  \<^verbatim>\<open>TypeError\<close> after one round. A tool that raises a string has its failure recorded
  with the payload \<^verbatim>\<open>{}\<close>, which does not hold the string.
\<close>

theorem tool_raising_undefined_aborts_stream:
  \<open>executeTools exampleJSON (Some [silentTool]) [ToolCall ''call_3'' ''silent'' ''{}''] []
     (start :: (unit, chunk) exec)
   = (Inl (typeErrorOn ''undefined''), start)
   \<and> chatStream exampleJSON exampleSilentAI (WithAdapter ''silent'' ''m0'' None)
       (Some [''silent'']) exampleRest start
     = (Inl (typeErrorOn ''undefined''),
        start\<lparr>calls := [(''silent'', ''m0'')],
              yielded := [ToolCallChunk 0 ''call_3'' ''silent'' ''{}'',
                          DoneChunk ''tool_calls'']\<rparr>)
   \<and> executeTools exampleJSON
       (Some [\<lparr>tool_name = ''silent'',
               tool_execute = Some (\<lambda>args w. (Inl (JsValue ''quota exceeded''), w))\<rparr>])
       [ToolCall ''call_3'' ''silent'' ''{}''] [] (start :: (unit, chunk) exec)
     = (Inr [Message ''tool'' (Some ''{}'') None (Some ''call_3'') (Some ''silent'')], start)\<close>
proof (intro conjI)
  show "executeTools exampleJSON (Some [silentTool]) [ToolCall ''call_3'' ''silent'' ''{}''] []
     (start :: (unit, chunk) exec)
   = (Inl (typeErrorOn ''undefined''), start)"
    by (rule silentTool_aborts)
next
  let ?silent = "constAdapter (Inl JsUndefined)
      ([ToolCallChunk 0 ''call_3'' ''silent'' ''{}'', DoneChunk ''tool_calls''], None)
      :: (unit, string, unit, unit) AIAdapter"
  let ?chunks = "[ToolCallChunk 0 ''call_3'' ''silent'' ''{}'', DoneChunk ''tool_calls'']"
  have executors: "hasToolExecutorsOf (Some [silentTool])"
    by (simp add: hasToolExecutorsOf_def silentTool_def)
  have chosen: "initiallyChosen exampleSilentAI (WithAdapter ''silent'' ''m0'' None)
      = Some (''silent'', ''m0'')" by simp
  have reg: "map_of (this_adapters exampleSilentAI) ''silent'' = Some ?silent"
    by (simp add: exampleSilentAI_def)
  have lt: "0 < maxIterationsOf exampleRest"
    by (simp add: maxIterationsOf_def exampleRest_def)
  have call: "ad_chatStream ?silent
      (chatRequest (exampleRest\<lparr>rest_messages := rest_messages exampleRest\<rparr>) ''m0''
         (Some [silentTool]) True) (world (start :: (unit, chunk) exec))
      = ((?chunks, None), ())"
    by (simp add: constAdapter_def)
  have finalized: "foldl observe ([], [], False) ?chunks
      = ([(0, PendingCall ''call_3'' ''silent'' ''{}'')],
         [ToolCall ''call_3'' ''silent'' ''{}''], True)"
    by (simp add: observe_def accumulate_def finalize_def)
  have trig: "toolTriggering ?chunks"
    unfolding toolTriggering_def finalized by simp
  have "chatStream exampleJSON exampleSilentAI (WithAdapter ''silent'' ''m0'' None)
       (Some [''silent'']) exampleRest start
      = toolLoop exampleJSON ?silent ''silent'' ''m0'' exampleRest (Some [silentTool])
          (maxIterationsOf exampleRest) 0 (rest_messages exampleRest) start"
    by (rule chatStream_tool_mode [OF exampleSilentAI_tools executors chosen reg])
  also have "\<dots> = (Inl (typeErrorOn ''undefined''),
        start\<lparr>calls := [(''silent'', ''m0'')], yielded := ?chunks\<rparr>)"
    unfolding toolLoop_round [OF lt call refl, where json = exampleJSON and ad = "''silent''"]
      finalized fst_conv snd_conv silentTool_aborts
    by (simp add: trig start_def)
  finally show "chatStream exampleJSON exampleSilentAI (WithAdapter ''silent'' ''m0'' None)
       (Some [''silent'']) exampleRest start
     = (Inl (typeErrorOn ''undefined''),
        start\<lparr>calls := [(''silent'', ''m0'')], yielded := ?chunks\<rparr>)" .
next
  show \<open>executeTools exampleJSON
       (Some [\<lparr>tool_name = ''silent'',
               tool_execute = Some (\<lambda>args w. (Inl (JsValue ''quota exceeded''), w))\<rparr>])
       [ToolCall ''call_3'' ''silent'' ''{}''] [] (start :: (unit, chunk) exec)
     = (Inr [Message ''tool'' (Some ''{}'') None (Some ''call_3'') (Some ''silent'')], start)\<close>
    by (simp add: findTool_def exampleJSON_def readMessage_def toolMessage_def start_def)
qed

text \<open>
  Claim C10. With tool executors, \<^verbatim>\<open>chatStream\<close> is the loop on the adapter and model
  chosen at the start (in fallback-only mode the first entry of the list): every backend
  call it makes is to that pair; the fallback lists, per call and configured, have no other
  part in the outcome; a round whose stream raises ends the call with that error, after every
  chunk of the stream has been yielded; and every chunk of a round's stream, error chunks
  included, is yielded as it is.
\<close>

theorem tool_mode_single_backend:
  assumes "toolObjectsOf self tools = Inr toolObjects"
    and "hasToolExecutorsOf toolObjects"
    and "initiallyChosen self options = Some (ad, md)"
    and "map_of (this_adapters self) ad = Some a"
  shows "chatStream json self options tools rest s
           = toolLoop json a ad md rest toolObjects (maxIterationsOf rest) 0 (rest_messages rest) s
       \<and> (\<exists>n. calls (snd (chatStream json self options tools rest s))
                 = calls s @ replicate n (ad, md))
       \<and> (initiallyChosen (self\<lparr>this_fallbacks := configured\<rparr>) options' = Some (ad, md) \<longrightarrow>
            chatStream json (self\<lparr>this_fallbacks := configured\<rparr>) options' tools rest s
              = chatStream json self options tools rest s)
       \<and> (iteration < maxIterationsOf rest
            \<and> ad_chatStream a (chatRequest (rest\<lparr>rest_messages := messages\<rparr>) md toolObjects True)
                 (world s') = ((chunks, Some e), w') \<longrightarrow>
            toolLoop json a ad md rest toolObjects (maxIterationsOf rest) iteration messages s'
              = (Inl e, s'\<lparr>world := w', calls := calls s' @ [(ad, md)],
                           yielded := yielded s' @ chunks\<rparr>))
       \<and> (iteration < maxIterationsOf rest
            \<and> ad_chatStream a (chatRequest (rest\<lparr>rest_messages := messages\<rparr>) md toolObjects True)
                 (world s') = ((chunks, raised), w') \<longrightarrow>
            (\<exists>ys. yielded (snd (toolLoop json a ad md rest toolObjects (maxIterationsOf rest)
                                  iteration messages s'))
                     = yielded s' @ chunks @ ys))"
proof (intro conjI impI)
  show bridge: "chatStream json self options tools rest s
      = toolLoop json a ad md rest toolObjects (maxIterationsOf rest) 0 (rest_messages rest) s"
    by (rule chatStream_tool_mode [OF assms])
  show "\<exists>n. calls (snd (chatStream json self options tools rest s))
                 = calls s @ replicate n (ad, md)"
    using toolLoop_trace [of json a ad md rest toolObjects "maxIterationsOf rest" 0
        "rest_messages rest" s]
    by (auto simp: bridge)
next
  assume other: "initiallyChosen (self\<lparr>this_fallbacks := configured\<rparr>) options' = Some (ad, md)"
  have "chatStream json (self\<lparr>this_fallbacks := configured\<rparr>) options' tools rest s
      = toolLoop json a ad md rest toolObjects (maxIterationsOf rest) 0 (rest_messages rest) s"
    using assms by (intro chatStream_tool_mode other) simp_all
  then show "chatStream json (self\<lparr>this_fallbacks := configured\<rparr>) options' tools rest s
      = chatStream json self options tools rest s"
    by (simp add: chatStream_tool_mode [OF assms])
next
  assume h: "iteration < maxIterationsOf rest
            \<and> ad_chatStream a (chatRequest (rest\<lparr>rest_messages := messages\<rparr>) md toolObjects True)
                 (world s') = ((chunks, Some e), w')"
  then have lt: "iteration < maxIterationsOf rest"
    and call: "ad_chatStream a (chatRequest (rest\<lparr>rest_messages := messages\<rparr>) md toolObjects True)
                 (world s') = ((chunks, Some e), w')" by simp_all
  show "toolLoop json a ad md rest toolObjects (maxIterationsOf rest) iteration messages s'
      = (Inl e, s'\<lparr>world := w', calls := calls s' @ [(ad, md)], yielded := yielded s' @ chunks\<rparr>)"
    using toolLoop_round [OF lt call refl, where json = json and ad = ad] by simp
next
  assume h: "iteration < maxIterationsOf rest
            \<and> ad_chatStream a (chatRequest (rest\<lparr>rest_messages := messages\<rparr>) md toolObjects True)
                 (world s') = ((chunks, raised), w')"
  then have lt: "iteration < maxIterationsOf rest"
    and call: "ad_chatStream a (chatRequest (rest\<lparr>rest_messages := messages\<rparr>) md toolObjects True)
                 (world s') = ((chunks, raised), w')" by simp_all
  show "\<exists>ys. yielded (snd (toolLoop json a ad md rest toolObjects (maxIterationsOf rest)
                                  iteration messages s'))
                     = yielded s' @ chunks @ ys"
    by (rule toolLoop_round_yields [OF lt call])
qed

theorem tool_mode_single_backend_witness:
  "chatStream exampleJSON exampleToolAI (WithAdapter ''flaky'' ''m1'' (Some [(''looper'', ''m9'')]))
     (Some [''lookup'', ''broken'']) exampleRest start
   = (Inl (JsError ''socket closed''),
      start\<lparr>calls := [(''flaky'', ''m1'')],
            yielded := [ContentChunk ''par'' ''par'', ErrorChunk ''overloaded'']\<rparr>)"
proof -
  let ?flaky = "constAdapter (Inl (JsError ''boom''))
      ([ContentChunk ''par'' ''par'', ErrorChunk ''overloaded''], Some (JsError ''socket closed''))
      :: (unit, string, unit, unit) AIAdapter"
  let ?options = "WithAdapter ''flaky'' ''m1'' (Some [(''looper'', ''m9'')])"
  have chosen: "initiallyChosen exampleToolAI ?options = Some (''flaky'', ''m1'')" by simp
  have reg: "map_of (this_adapters exampleToolAI) ''flaky'' = Some ?flaky"
    by (simp add: exampleToolAI_def)
  note facts = tool_mode_single_backend [OF exampleToolAI_tools exampleTools_executors chosen reg,
      where json = exampleJSON and rest = exampleRest and s = start]
  have raise: "0 < maxIterationsOf exampleRest
      \<and> ad_chatStream ?flaky
          (chatRequest (exampleRest\<lparr>rest_messages := rest_messages exampleRest\<rparr>) ''m1''
             (Some [lookupTool, brokenTool]) True) (world (start :: (unit, chunk) exec))
        = (([ContentChunk ''par'' ''par'', ErrorChunk ''overloaded''],
            Some (JsError ''socket closed'')), ())"
    by (simp add: maxIterationsOf_def exampleRest_def constAdapter_def)
  have "chatStream exampleJSON exampleToolAI ?options (Some [''lookup'', ''broken''])
          exampleRest start
      = toolLoop exampleJSON ?flaky ''flaky'' ''m1'' exampleRest (Some [lookupTool, brokenTool])
          (maxIterationsOf exampleRest) 0 (rest_messages exampleRest) start"
    by (rule facts [THEN conjunct1])
  also have "\<dots> = (Inl (JsError ''socket closed''),
      start\<lparr>calls := [(''flaky'', ''m1'')],
            yielded := [ContentChunk ''par'' ''par'', ErrorChunk ''overloaded'']\<rparr>)"
    using facts [THEN conjunct2, THEN conjunct2, THEN conjunct2, THEN conjunct1, THEN mp,
          OF raise]
    by (simp add: start_def)
  finally show ?thesis .
qed

end
